theory Spec2Isabelle
  imports Main "HOL-Library.Sublist"
begin

section \<open>Strings as the Python code uses them\<close>

text \<open>
  Python \<open>str\<close> values are modelled as \<open>string\<close> (lists of 8-bit characters); the
  model covers ASCII text. \<open>str.lower\<close>, \<open>str.strip\<close>, \<open>str.split\<close> and the regex
  classes \<open>\\s\<close>, \<open>\\d\<close>, \<open>\\w\<close> are given their ASCII meaning.
\<close>

definition upper_letters :: string where
  "upper_letters = ''ABCDEFGHIJKLMNOPQRSTUVWXYZ''"

definition lower_letters :: string where
  "lower_letters = ''abcdefghijklmnopqrstuvwxyz''"

definition lower_char :: "char \<Rightarrow> char" where
  "lower_char c = (case map_of (zip upper_letters lower_letters) c of Some l \<Rightarrow> l | None \<Rightarrow> c)"

text \<open>\<open>s.lower()\<close>\<close>

definition lower :: "string \<Rightarrow> string" where
  "lower s = map lower_char s"

text \<open>Whitespace of \<open>str.isspace\<close>, \<open>str.strip\<close>, \<open>str.split\<close> and \<open>\\s\<close> (ASCII part).\<close>

definition is_space :: "char \<Rightarrow> bool" where
  "is_space c \<longleftrightarrow> c \<in> set [CHR '' '', CHR 0x09, CHR 0x0A, CHR 0x0B, CHR 0x0C, CHR 0x0D,
                             CHR 0x1C, CHR 0x1D, CHR 0x1E, CHR 0x1F]"

definition is_digit :: "char \<Rightarrow> bool" where
  "is_digit c \<longleftrightarrow> c \<in> set ''0123456789''"

definition is_word :: "char \<Rightarrow> bool" where
  "is_word c \<longleftrightarrow> c \<in> set (lower_letters @ upper_letters @ ''0123456789_'')"

text \<open>\<open>p in s\<close> on strings: \<open>p\<close> occurs in \<open>s\<close> as a contiguous substring.\<close>

primrec py_in :: "string \<Rightarrow> string \<Rightarrow> bool" where
  "py_in p [] = (p = [])"
| "py_in p (c # cs) = (prefix p (c # cs) \<or> py_in p cs)"

text \<open>\<open>s.strip()\<close>\<close>

definition strip :: "string \<Rightarrow> string" where
  "strip s = rev (dropWhile is_space (rev (dropWhile is_space s)))"

text \<open>\<open>s.split()\<close>: split on runs of whitespace, no empty words. \<open>cur\<close> is the word being read.\<close>

fun split_acc :: "string \<Rightarrow> string \<Rightarrow> string list" where
  "split_acc cur [] = (if cur = [] then [] else [cur])"
| "split_acc cur (c # cs) =
     (if is_space c then (if cur = [] then split_acc [] cs else cur # split_acc [] cs)
      else split_acc (cur @ [c]) cs)"

definition split_ws :: "string \<Rightarrow> string list" where
  "split_ws s = split_acc [] s"

text \<open>\<open>sep.join(xs)\<close>\<close>

fun join :: "string \<Rightarrow> string list \<Rightarrow> string" where
  "join sep [] = []"
| "join sep [x] = x"
| "join sep (x # y # ys) = x @ sep @ join sep (y # ys)"

text \<open>\<open>s.replace('-', ' ')\<close>\<close>

definition replace_hyphen :: "string \<Rightarrow> string" where
  "replace_hyphen s = map (\<lambda>c. if c = CHR ''-'' then CHR '' '' else c) s"

section \<open>Regular expressions: the fragment of Python's \<open>re\<close> used by \<open>parameters.py\<close>\<close>

text \<open>
  The patterns are compiled with \<open>re.IGNORECASE\<close>: a literal character matches
  regardless of case. Matching is backtracking with priorities, as in \<open>re\<close>: the leftmost
  start position, alternatives left to right, quantifiers greedy.
\<close>

datatype cclass = CSpace | CDigit | CWord | CHyphen | CUnion cclass cclass

primrec in_class :: "cclass \<Rightarrow> char \<Rightarrow> bool" where
  "in_class CSpace c = is_space c"
| "in_class CDigit c = is_digit c"
| "in_class CWord c = is_word c"
| "in_class CHyphen c = (c = CHR ''-'')"
| "in_class (CUnion a b) c = (in_class a c \<or> in_class b c)"

datatype regex =
    Eps
  | Chr char
  | Cls cclass
  | WordB
  | Seq regex regex
  | Alt regex regex
  | Rep nat "nat option" regex

text \<open>A matcher state: the character before the position (for \<open>\\b\<close>) and the rest of the text.\<close>

type_synonym mstate = "char option \<times> string"

definition word_before :: "mstate \<Rightarrow> bool" where
  "word_before st = (case fst st of None \<Rightarrow> False | Some c \<Rightarrow> is_word c)"

definition word_after :: "mstate \<Rightarrow> bool" where
  "word_after st = (case snd st of [] \<Rightarrow> False | c # _ \<Rightarrow> is_word c)"

text \<open>
  Greedy repetition \<open>{lo,hi}\<close> of a matcher \<open>f\<close>: one more round first, then stopping here.
  Every round must consume input, so the length of the remaining text bounds the rounds.
\<close>

primrec rep :: "(mstate \<Rightarrow> mstate list) \<Rightarrow> nat \<Rightarrow> nat \<Rightarrow> nat option \<Rightarrow> mstate \<Rightarrow> mstate list" where
  "rep f 0 lo hi st = (if lo = 0 then [st] else [])"
| "rep f (Suc n) lo hi st =
     (if hi = Some 0 then []
      else concat (map (rep f n (lo - 1) (map_option (\<lambda>h. h - 1) hi))
                       (filter (\<lambda>st'. length (snd st') < length (snd st)) (f st))))
     @ (if lo = 0 then [st] else [])"

text \<open>All ways to match \<open>r\<close> at a state, best first; each result is the state after the match.\<close>

primrec rmatch :: "regex \<Rightarrow> mstate \<Rightarrow> mstate list" where
  "rmatch Eps st = [st]"
| "rmatch (Chr a) st =
     (case snd st of [] \<Rightarrow> []
      | c # cs \<Rightarrow> if lower_char c = lower_char a then [(Some c, cs)] else [])"
| "rmatch (Cls k) st =
     (case snd st of [] \<Rightarrow> []
      | c # cs \<Rightarrow> if in_class k c then [(Some c, cs)] else [])"
| "rmatch WordB st = (if word_before st \<noteq> word_after st then [st] else [])"
| "rmatch (Seq a b) st = concat (map (rmatch b) (rmatch a st))"
| "rmatch (Alt a b) st = rmatch a st @ rmatch b st"
| "rmatch (Rep lo hi r) st = rep (rmatch r) (length (snd st)) lo hi st"

text \<open>\<open>pattern.search(s)\<close>: \<open>match.group(0)\<close> of the first match, or \<open>None\<close>.\<close>

fun search_from :: "regex \<Rightarrow> char option \<Rightarrow> string \<Rightarrow> string option" where
  "search_from r prev [] =
     (case rmatch r (prev, []) of st # _ \<Rightarrow> Some [] | [] \<Rightarrow> None)"
| "search_from r prev (c # cs) =
     (case rmatch r (prev, c # cs) of
        st # _ \<Rightarrow> Some (take (length (c # cs) - length (snd st)) (c # cs))
      | [] \<Rightarrow> search_from r (Some c) cs)"

definition search :: "regex \<Rightarrow> string \<Rightarrow> string option" where
  "search r s = search_from r None s"

text \<open>Pattern syntax.\<close>

definition Lit :: "string \<Rightarrow> regex" where
  "Lit s = foldr (\<lambda>c r. Seq (Chr c) r) s Eps"

definition Seqs :: "regex list \<Rightarrow> regex" where
  "Seqs rs = foldr Seq rs Eps"

fun Alts :: "regex \<Rightarrow> regex list \<Rightarrow> regex" where
  "Alts r [] = r"
| "Alts r (x # xs) = Alt r (Alts x xs)"

definition Opt :: "regex \<Rightarrow> regex" where
  "Opt r = Rep 0 (Some 1) r"

definition Star :: "regex \<Rightarrow> regex" where
  "Star r = Rep 0 None r"

definition Plus :: "regex \<Rightarrow> regex" where
  "Plus r = Rep 1 None r"

section \<open>\<open>parameters.py\<close>\<close>

definition USER_AGENT :: string where
  "USER_AGENT = ''MyCrawler/1.0''"

definition sp_hy :: regex where
  \<comment> \<open>\<open>[\\s-]\<close>, also written \<open>[-\\s]\<close>\<close>
  "sp_hy = Cls (CUnion CSpace CHyphen)"

definition version_number :: regex where
  \<comment> \<open>\<open>(?:v?\\d+(?:\\.\\d+)?)\<close>\<close>
  "version_number = Seqs [Opt (Chr CHR ''v''), Plus (Cls CDigit),
                          Opt (Seq (Chr CHR ''.'') (Plus (Cls CDigit)))]"

definition digit_dot_digit :: regex where
  \<comment> \<open>\<open>\\d\\.\\d\<close>\<close>
  "digit_dot_digit = Seqs [Cls CDigit, Chr CHR ''.'', Cls CDigit]"

definition MIT_PATTERN :: regex where
  "MIT_PATTERN = Seqs [WordB, Lit ''MIT'', Plus sp_hy,
     Rep 0 (Some 3) (Seq (Plus (Cls CWord)) (Plus (Cls CSpace))),
     Alt (Lit ''License'') (Lit ''Variant'')]"

definition APACHE_PATTERN :: regex where
  "APACHE_PATTERN = Seqs [WordB, Lit ''Apache'', Plus sp_hy,
     Alt (Seqs [Lit ''License'', Star sp_hy, Opt version_number]) version_number,
     WordB]"

definition CC_PATTERN :: regex where
  "CC_PATTERN = Seqs [WordB,
     Alts
       (Seqs [Lit ''CC'', Plus sp_hy,
              Plus (Seq (Alts (Lit ''BY'')
                          [Lit ''Attribution'', Lit ''SA'',
                           Seqs [Lit ''Share'', Opt sp_hy, Lit ''Alike''],
                           Lit ''NC'',
                           Seqs [Lit ''Non'', Opt sp_hy, Lit ''Commercial''],
                           Lit ''ND'',
                           Seqs [Lit ''No'', Opt sp_hy, Lit ''Derivatives''] ])
                        (Opt sp_hy)),
              Opt digit_dot_digit])
       [Seqs [Lit ''Creative'', Plus sp_hy, Lit ''Commons'', Star sp_hy,
              Star (Seq (Alts (Lit ''Attribution'')
                          [Seqs [Lit ''Share'', Opt sp_hy, Lit ''Alike''],
                           Seqs [Lit ''Non'', Opt sp_hy, Lit ''Commercial''],
                           Seqs [Lit ''No'', Opt sp_hy, Lit ''Derivatives''],
                           Lit ''BY'', Lit ''SA'', Lit ''NC'', Lit ''ND''])
                        (Star sp_hy)),
              Opt digit_dot_digit],
        Lit ''CC0''],
     WordB]"

definition GPL_PATTERN :: regex where
  "GPL_PATTERN = Seqs [WordB,
     Alts
       (Seqs [Lit ''GNU'', Plus sp_hy, Opt (Alt (Lit ''A'') (Lit ''L'')), Lit ''GPL''])
       [Seqs [Opt (Alt (Lit ''A'') (Lit ''L'')), Lit ''GPL'', Star sp_hy, version_number],
        Seqs [Lit ''General'', Plus (Cls CSpace), Lit ''Public'', Plus (Cls CSpace),
              Lit ''License''] ],
     WordB]"

definition BSD_PATTERN :: regex where
  "BSD_PATTERN = Seqs [WordB, Lit ''BSD'', Plus sp_hy,
     Alt (Seqs [Plus (Cls CDigit), sp_hy, Lit ''Clause'']) (Lit ''License''),
     WordB]"

text \<open>The dictionary \<open>LICENSE_PATTERNS\<close>, in insertion order.\<close>

definition LICENSE_PATTERNS :: "(string \<times> regex) list" where
  "LICENSE_PATTERNS =
     [(''MIT License'', MIT_PATTERN),
      (''Apache License'', APACHE_PATTERN),
      (''Creative Commons (CC)'', CC_PATTERN),
      (''GNU GPL'', GPL_PATTERN),
      (''BSD License'', BSD_PATTERN)]"

definition CC_VERSIONS :: "string list" where
  "CC_VERSIONS = [''1.0'', ''2.0'', ''2.5'', ''3.0'', ''4.0'']"

definition CC_TYPES :: "string list" where
  "CC_TYPES = [''BY'', ''BY-SA'', ''BY-ND'', ''BY-NC'', ''BY-NC-SA'', ''BY-NC-ND'']"

definition CC_TYPE_MAP :: "(string \<times> string) list" where
  "CC_TYPE_MAP =
     [(''attribution'', ''BY''), (''by'', ''BY''),
      (''noncommercial'', ''NC''), (''non-commercial'', ''NC''), (''nc'', ''NC''),
      (''sharealike'', ''SA''), (''share-alike'', ''SA''), (''sa'', ''SA''),
      (''noderivatives'', ''ND''), (''no-derivatives'', ''ND''), (''nd'', ''ND'')]"

text \<open>
  In the source the fourth entry is written as the two adjacent literals
  \<open>"licensing"\<close> and \<open>"use"\<close> with no comma between them, which Python concatenates.
\<close>

definition RELEVANT_LINKS_KEYWORDS :: "string list" where
  "RELEVANT_LINKS_KEYWORDS =
     [''terms'', ''legal'', ''license'', ''licensing'' @ ''use'', ''policy'', ''copyright'']"

definition RELEVANT_TEXT_KEYWORDS :: "string list" where
  "RELEVANT_TEXT_KEYWORDS =
     [''intellectual property'', ''right'', ''authorised'', ''commercial use'',
      ''non-commercial use'', ''fair use'', ''license'', ''copyright'', ''creative commons'',
      ''cc by'', ''gpl'', ''apache'', ''mit'', ''bsd'']"

section \<open>\<open>license_identifier.py\<close>\<close>

definition check_for_cc0 :: "string \<Rightarrow> string \<Rightarrow> string option" where
  "check_for_cc0 url_lower text_lower =
     (if py_in ''publicdomain/zero'' url_lower \<or> py_in ''cc0'' text_lower
         \<or> py_in ''creative commons zero'' text_lower
      then Some ''CC0'' else None)"

text \<open>The inner loop \<open>for cc_type in CC_TYPES\<close> for one version, with its early return.\<close>

fun url_types_loop :: "string \<Rightarrow> string \<Rightarrow> string list \<Rightarrow> string option" where
  "url_types_loop url_lower version [] = None"
| "url_types_loop url_lower version (cc_type # rest) =
     (if py_in (''licenses/'' @ lower cc_type @ ''/'' @ version) url_lower
      then Some (''CC-'' @ cc_type @ ''-'' @ version)
      else url_types_loop url_lower version rest)"

text \<open>The outer loop \<open>for version in CC_VERSIONS\<close>.\<close>

fun url_versions_loop :: "string \<Rightarrow> string list \<Rightarrow> string option" where
  "url_versions_loop url_lower [] = None"
| "url_versions_loop url_lower (version # rest) =
     (case url_types_loop url_lower version CC_TYPES of
        Some l \<Rightarrow> Some l
      | None \<Rightarrow> url_versions_loop url_lower rest)"

definition extract_license_from_url :: "string \<Rightarrow> string option" where
  "extract_license_from_url url_lower = url_versions_loop url_lower CC_VERSIONS"

text \<open>The loop over \<open>words\<close> in \<open>_process_cc_type_text\<close>, building \<open>mapped_words\<close>.\<close>

fun map_words :: "string list \<Rightarrow> string list" where
  "map_words [] = []"
| "map_words (w # ws) =
     (case map_of CC_TYPE_MAP w of
        Some t \<Rightarrow> t # map_words ws
      | None \<Rightarrow> if w \<in> set CC_VERSIONS then w # map_words ws else map_words ws)"

definition process_cc_type_text :: "string \<Rightarrow> string" where
  "process_cc_type_text type_str =
     (if type_str = [] then []
      else join ''-'' (map_words (split_ws (replace_hyphen (lower type_str)))))"

definition extract_license_from_text :: "string \<Rightarrow> string option" where
  "extract_license_from_text text_lower =
     (case search CC_PATTERN text_lower of
        None \<Rightarrow> None
      | Some matched_text \<Rightarrow>
          (let cc_type = process_cc_type_text matched_text
           in if cc_type = [] then None else Some (''CC-'' @ cc_type)))"

definition determine_cc_license :: "string \<Rightarrow> string \<Rightarrow> string" where
  "determine_cc_license url txt =
     (if url = [] \<and> txt = [] then ''Unknown''
      else
        let url_lower = lower url; text_lower = lower txt in
        case check_for_cc0 url_lower text_lower of
          Some l \<Rightarrow> l
        | None \<Rightarrow>
            (case extract_license_from_url url_lower of
               Some l \<Rightarrow> l
             | None \<Rightarrow>
                 (case extract_license_from_text text_lower of
                    Some l \<Rightarrow> l
                  | None \<Rightarrow> ''Unknown'')))"

text \<open>
  \<open>extract_licenses\<close> collects the names in a Python set and returns \<open>list(licenses)\<close>,
  whose order is unspecified; the model lists them in dictionary order, and the
  theorems only speak of the set of its elements.
\<close>

definition extract_licenses :: "string \<Rightarrow> string list" where
  "extract_licenses txt =
     (if txt = [] then []
      else map fst (filter (\<lambda>(pattern_name, pattern). search pattern txt \<noteq> None)
                           LICENSE_PATTERNS))"

section \<open>The world outside the program\<close>

text \<open>
  The libraries the code calls (\<open>requests\<close>, \<open>urllib.parse\<close>, \<open>validators\<close>, \<open>protego\<close>,
  \<open>bs4\<close>) are parameters of the model, collected in an environment. A call that can
  raise returns a sum, \<open>Inl\<close> carrying the exception: so does \<open>urljoin\<close>, which raises
  \<open>ValueError\<close> on a malformed reference such as \<open>http://[bad\<close>. The network is taken to
  answer the same request the same way during one scan.
\<close>

datatype exn =
    RequestException string
  | HTTPError nat
  | ValueError string
  | OtherException string

text \<open>What \<open>session.get(url, timeout=10)\<close> does: raise, or return a response.\<close>

datatype http_outcome =
    Raises exn
  | Response (status_code: nat) (body: string)

text \<open>A parsed robots.txt is used only through its method \<open>can_fetch(url, user_agent)\<close>.\<close>

datatype robots = Robots (can_fetch: "string \<Rightarrow> string \<Rightarrow> bool")

text \<open>
  A parsed page, as far as the code queries it: \<open>footers\<close> is \<open>soup.find_all("footer")\<close>,
  each footer given by its \<open>find_all("a")\<close>; an anchor by \<open>link.get("href")\<close> and
  \<open>link.get_text()\<close>; \<open>text_elements\<close> is the \<open>get_text()\<close> of every element of
  \<open>soup.find_all(["p", "li", "span"])\<close>.
\<close>

datatype anchor = Anchor (href: "string option") (get_text: string)

record soup =
  footers :: "anchor list list"
  text_elements :: "string list"

record env =
  validators_url :: "string \<Rightarrow> bool"
  urlparse :: "string \<Rightarrow> exn + (string \<times> string)"
  urljoin :: "string \<Rightarrow> string \<Rightarrow> exn + string"
  session_get :: "string \<Rightarrow> http_outcome"
  protego_parse :: "string \<Rightarrow> exn + robots"
  beautiful_soup :: "string \<Rightarrow> exn + soup"

section \<open>\<open>request_manager.py\<close>\<close>

text \<open>
  Both \<open>except\<close> clauses of \<open>fetch_robots\<close> fall through to \<open>return None\<close>; the calls of
  \<open>urljoin\<close>, \<open>session.get\<close> and \<open>Protego.parse\<close> are all inside the \<open>try\<close>.
\<close>

definition fetch_robots :: "env \<Rightarrow> string \<Rightarrow> robots option" where
  "fetch_robots e url =
     (case urljoin e url ''/robots.txt'' of
        Inl x \<Rightarrow> None
      | Inr target \<Rightarrow>
          (case session_get e target of
             Raises x \<Rightarrow> None
           | Response status txt \<Rightarrow>
               if status = 200
               then (case protego_parse e txt of Inl x \<Rightarrow> None | Inr r \<Rightarrow> Some r)
               else None))"

definition is_allowed_by_robots :: "env \<Rightarrow> string \<Rightarrow> string \<Rightarrow> bool" where
  "is_allowed_by_robots e user_agent url =
     (if url = [] then False
      else case fetch_robots e url of
             None \<Rightarrow> True
           | Some r \<Rightarrow> can_fetch r url user_agent)"

text \<open>
  \<open>fetch_page\<close> has no \<open>try\<close>: an exception of \<open>session.get\<close> and the \<open>HTTPError\<close> of
  \<open>raise_for_status\<close> (status 400 to 599) leave the function.
\<close>

definition fetch_page :: "env \<Rightarrow> string \<Rightarrow> exn + string option" where
  "fetch_page e url =
     (if url = [] then Inr None
      else case session_get e url of
             Raises x \<Rightarrow> Inl x
           | Response status b \<Rightarrow>
               if 400 \<le> status \<and> status < 600 then Inl (HTTPError status)
               else Inr (Some b))"

section \<open>\<open>data_extractor.py\<close>\<close>

text \<open>\<open>not content\<close> for a value that is \<open>None\<close> or a byte string.\<close>

definition falsy :: "string option \<Rightarrow> bool" where
  "falsy c = (case c of None \<Rightarrow> True | Some b \<Rightarrow> b = [])"

definition parse_html :: "env \<Rightarrow> string option \<Rightarrow> exn + soup option" where
  "parse_html e c =
     (case c of
        None \<Rightarrow> Inr None
      | Some b \<Rightarrow> if b = [] then Inr None
                  else (case beautiful_soup e b of Inl x \<Rightarrow> Inl x | Inr s \<Rightarrow> Inr (Some s)))"

definition contains_keyword :: "string \<Rightarrow> string list \<Rightarrow> bool" where
  "contains_keyword txt keywords =
     (if txt = [] \<or> keywords = [] then False
      else list_ex (\<lambda>keyword. py_in (lower keyword) (lower txt)) keywords)"

definition contains_pattern :: "string \<Rightarrow> (string \<times> regex) list \<Rightarrow> bool" where
  "contains_pattern txt patterns =
     (if txt = [] \<or> patterns = [] then False
      else list_ex (\<lambda>(pattern_name, pattern). search pattern (lower txt) \<noteq> None) patterns)"

text \<open>
  The loop state of \<open>extract_footer_links\<close>: \<open>license_link\<close>, \<open>license_text\<close> and
  \<open>relevant_links\<close>. The last is a Python set, returned as \<open>list(relevant_links)\<close> in
  an unspecified order; the model keeps a duplicate-free list.
\<close>

type_synonym footer_state = "string \<times> string \<times> string list"

text \<open>
  The body of the inner loop, for one \<open>link\<close>. \<open>urljoin(base_url, href)\<close> is called for
  every anchor with a non-empty \<open>href\<close>, before the text is looked at and outside any
  \<open>try\<close>: when it raises, the exception leaves \<open>extract_footer_links\<close>.
\<close>

definition footer_link_step :: "(string \<Rightarrow> string \<Rightarrow> exn + string) \<Rightarrow> string \<Rightarrow> footer_state \<Rightarrow> anchor \<Rightarrow> exn + footer_state" where
  "footer_link_step join_url base_url st link =
     (case st of (license_link, license_text, relevant_links) \<Rightarrow>
        (case href link of
           None \<Rightarrow> Inr st
         | Some h \<Rightarrow>
             if h = [] then Inr st
             else
               (case join_url base_url h of
                  Inl x \<Rightarrow> Inl x
                | Inr absolute_url \<Rightarrow>
                    let txt = strip (get_text link)
                    in if license_link = [] \<and> contains_pattern txt LICENSE_PATTERNS
                       then Inr (absolute_url, txt, relevant_links)
                       else if contains_keyword txt RELEVANT_LINKS_KEYWORDS
                       then Inr (license_link, license_text,
                                 List.insert absolute_url relevant_links)
                       else Inr st)))"

fun footer_links_loop :: "(string \<Rightarrow> string \<Rightarrow> exn + string) \<Rightarrow> string \<Rightarrow> footer_state \<Rightarrow> anchor list \<Rightarrow> exn + footer_state" where
  "footer_links_loop join_url base_url st [] = Inr st"
| "footer_links_loop join_url base_url st (link # links) =
     (case footer_link_step join_url base_url st link of
        Inl x \<Rightarrow> Inl x
      | Inr st' \<Rightarrow> footer_links_loop join_url base_url st' links)"

fun footers_loop :: "(string \<Rightarrow> string \<Rightarrow> exn + string) \<Rightarrow> string \<Rightarrow> footer_state \<Rightarrow> anchor list list \<Rightarrow> exn + footer_state" where
  "footers_loop join_url base_url st [] = Inr st"
| "footers_loop join_url base_url st (footer # fs) =
     (case footer_links_loop join_url base_url st footer of
        Inl x \<Rightarrow> Inl x
      | Inr st' \<Rightarrow> footers_loop join_url base_url st' fs)"

definition extract_footer_links :: "(string \<Rightarrow> string \<Rightarrow> exn + string) \<Rightarrow> soup option \<Rightarrow> string \<Rightarrow> exn + footer_state" where
  "extract_footer_links join_url sp base_url =
     (case sp of
        None \<Rightarrow> Inr ([], [], [])
      | Some s \<Rightarrow> if base_url = [] then Inr ([], [], [])
                  else footers_loop join_url base_url ([], [], []) (footers s))"

text \<open>\<open>re.split(r'\\.(?=\\s|$)', text)\<close>: cut at each period followed by whitespace or the end.\<close>

fun split_sentences :: "string \<Rightarrow> string \<Rightarrow> string list" where
  "split_sentences cur [] = [cur]"
| "split_sentences cur (c # cs) =
     (if c = CHR ''.'' \<and> (case cs of [] \<Rightarrow> True | d # _ \<Rightarrow> is_space d)
      then cur # split_sentences [] cs
      else split_sentences (cur @ [c]) cs)"

definition element_sentences :: "string \<Rightarrow> string list" where
  "element_sentences element_text =
     filter (\<lambda>sentence. contains_keyword sentence RELEVANT_TEXT_KEYWORDS)
            (map strip (split_sentences [] (strip element_text)))"

definition extract_relevant_text :: "soup option \<Rightarrow> string" where
  "extract_relevant_text sp =
     (case sp of
        None \<Rightarrow> []
      | Some s \<Rightarrow> join ''. '' (concat (map element_sentences (text_elements s))))"

text \<open>
  The loop of \<open>process_relevant_links\<close> over \<open>links\<close>, with \<open>combined_content\<close> as
  accumulator. \<open>time.sleep\<close> has no effect on the values.
\<close>

fun relevant_links_loop :: "env \<Rightarrow> string list \<Rightarrow> string list \<Rightarrow> exn + string list" where
  "relevant_links_loop e combined_content [] = Inr combined_content"
| "relevant_links_loop e combined_content (link # links) =
     (case fetch_page e link of
        Inl x \<Rightarrow> Inl x
      | Inr c \<Rightarrow>
          if falsy c then relevant_links_loop e combined_content links
          else (case parse_html e c of
                  Inl x \<Rightarrow> Inl x
                | Inr sp \<Rightarrow>
                    let extracted = extract_relevant_text sp
                    in relevant_links_loop e
                         (if extracted = [] then combined_content
                          else combined_content @ [extracted])
                         links))"

definition process_relevant_links :: "env \<Rightarrow> string list \<Rightarrow> exn + string" where
  "process_relevant_links e links =
     (if links = [] then Inr []
      else case relevant_links_loop e [] links of
             Inl x \<Rightarrow> Inl x
           | Inr combined_content \<Rightarrow> Inr (join '' '' combined_content))"

section \<open>\<open>license_detector.py\<close>\<close>

text \<open>The result dictionary of \<open>_process_website\<close>; \<open>None\<close> is \<open>None\<close>.\<close>

record site_result =
  website :: string
  invalidUrl :: bool
  blockedByRobotsTxt :: bool
  licenseLink :: "string option"
  licenseType :: "string option"
  relevantLinks :: "string list"
  licenseMentions :: "string list"
  content :: "string option"

text \<open>
  An entry of \<open>all_data\<close>: a result dictionary, or the two-key dictionary
  \<open>{"website": url, "error": str(e)}\<close> (the exception stands for its message).
\<close>

datatype scan_entry =
    ResultDict site_result
  | ErrorDict string exn

definition validate_url :: "env \<Rightarrow> string \<Rightarrow> bool" where
  "validate_url e url = (if url = [] then False else validators_url e url)"

definition normalize_url :: "env \<Rightarrow> string \<Rightarrow> string" where
  "normalize_url e url =
     (case urlparse e url of
        Inl x \<Rightarrow> url
      | Inr (scheme, netloc) \<Rightarrow> scheme @ ''://'' @ netloc)"

definition initial_result :: "string \<Rightarrow> site_result" where
  "initial_result url =
     \<lparr>website = url, invalidUrl = False, blockedByRobotsTxt = False, licenseLink = None,
      licenseType = None, relevantLinks = [], licenseMentions = [], content = None\<rparr>"

definition process_website :: "env \<Rightarrow> string \<Rightarrow> string \<Rightarrow> exn + site_result" where
  "process_website e user_agent url =
     (let result = initial_result url in
      if \<not> validate_url e url then Inr (result\<lparr>invalidUrl := True\<rparr>)
      else
        let base_url = normalize_url e url in
        if \<not> is_allowed_by_robots e user_agent base_url
        then Inr (result\<lparr>blockedByRobotsTxt := True\<rparr>)
        else
          (case fetch_page e url of
             Inl x \<Rightarrow> Inl x
           | Inr c \<Rightarrow>
               if falsy c then Inr result
               else
                 (case parse_html e c of
                    Inl x \<Rightarrow> Inl x
                  | Inr None \<Rightarrow> Inr result
                  | Inr (Some sp) \<Rightarrow>
                      (case extract_footer_links (urljoin e) (Some sp) url of
                         Inl x \<Rightarrow> Inl x
                       | Inr (license_link, license_text, relevant_links) \<Rightarrow>
                           (let license_type = determine_cc_license license_link license_text in
                            (case process_relevant_links e relevant_links of
                               Inl x \<Rightarrow> Inl x
                             | Inr cont \<Rightarrow>
                                 (let license_mentions = extract_licenses cont;
                                      license_type =
                                        (if license_type = ''Unknown''
                                         then determine_cc_license [] cont
                                         else license_type)
                                  in Inr (result\<lparr>licenseLink := Some license_link,
                                                  licenseType := Some license_type,
                                                  relevantLinks := relevant_links,
                                                  content := Some cont,
                                                  licenseMentions := license_mentions\<rparr>))))))))"

text \<open>The loop of \<open>scan_websites\<close>: \<open>try\<close> appends the result, \<open>except\<close> the error entry.\<close>

fun scan_loop :: "env \<Rightarrow> string \<Rightarrow> scan_entry list \<Rightarrow> string list \<Rightarrow> scan_entry list" where
  "scan_loop e user_agent all_data [] = all_data"
| "scan_loop e user_agent all_data (url # rest) =
     scan_loop e user_agent
       (all_data @ [case process_website e user_agent url of
                      Inr result \<Rightarrow> ResultDict result
                    | Inl x \<Rightarrow> ErrorDict url x])
       rest"

definition scan_websites :: "env \<Rightarrow> string \<Rightarrow> string list \<Rightarrow> scan_entry list" where
  "scan_websites e user_agent sites =
     (if sites = [] then [] else scan_loop e user_agent [] sites)"

section \<open>Notions used to state the properties\<close>

text \<open>A URL and a text carry a CC0 indicator.\<close>

definition cc0_indicator :: "string \<Rightarrow> string \<Rightarrow> bool" where
  "cc0_indicator url txt \<longleftrightarrow>
     py_in ''publicdomain/zero'' (lower url) \<or> py_in ''cc0'' (lower txt)
     \<or> py_in ''creative commons zero'' (lower txt)"

text \<open>
  A combination is a pair (version, type). \<open>url_hit\<close>: its substring occurs in the
  lowercased URL; \<open>url_label\<close>: the label it yields; \<open>first_hit\<close>: the label of the first
  combination of a list that occurs.
\<close>

definition url_hit :: "string \<Rightarrow> string \<times> string \<Rightarrow> bool" where
  "url_hit url_lower vt = py_in (''licenses/'' @ lower (snd vt) @ ''/'' @ fst vt) url_lower"

definition url_label :: "string \<times> string \<Rightarrow> string" where
  "url_label vt = ''CC-'' @ snd vt @ ''-'' @ fst vt"

definition first_hit :: "string \<Rightarrow> (string \<times> string) list \<Rightarrow> string option" where
  "first_hit url_lower combinations = map_option url_label (find (url_hit url_lower) combinations)"

text \<open>The 30 combinations, version by version (all types of 1.0, then all types of 2.0, ...).\<close>

definition version_major :: "(string \<times> string) list" where
  "version_major = concat (map (\<lambda>version. map (\<lambda>cc_type. (version, cc_type)) CC_TYPES) CC_VERSIONS)"

text \<open>
  The order of the specification's words: type by type (all versions of BY, then all
  versions of BY-SA, ...).
\<close>

definition type_major :: "(string \<times> string) list" where
  "type_major = concat (map (\<lambda>cc_type. map (\<lambda>version. (version, cc_type)) CC_VERSIONS) CC_TYPES)"

text \<open>The anchors the footer loop does not skip: those with a non-empty \<open>href\<close>.\<close>

definition usable :: "anchor \<Rightarrow> bool" where
  "usable link = (case href link of None \<Rightarrow> False | Some h \<Rightarrow> h \<noteq> [])"

definition is_license_anchor :: "anchor \<Rightarrow> bool" where
  "is_license_anchor link = contains_pattern (strip (get_text link)) LICENSE_PATTERNS"

definition is_relevant_anchor :: "anchor \<Rightarrow> bool" where
  "is_relevant_anchor link = contains_keyword (strip (get_text link)) RELEVANT_LINKS_KEYWORDS"

text \<open>
  What \<open>urljoin\<close> does with the \<open>href\<close> of an anchor that has one; \<open>resolved_url\<close> is
  the URL when it returns.
\<close>

definition absolute_url :: "(string \<Rightarrow> string \<Rightarrow> exn + string) \<Rightarrow> string \<Rightarrow> anchor \<Rightarrow> exn + string" where
  "absolute_url join_url base_url link = join_url base_url (the (href link))"

definition resolved_url :: "(string \<Rightarrow> string \<Rightarrow> exn + string) \<Rightarrow> string \<Rightarrow> anchor \<Rightarrow> string" where
  "resolved_url join_url base_url link =
     (case absolute_url join_url base_url link of Inl x \<Rightarrow> [] | Inr u \<Rightarrow> u)"

text \<open>The \<open>"website"\<close> key of an entry of the result list, and whether it has an \<open>"error"\<close> key.\<close>

fun entry_website :: "scan_entry \<Rightarrow> string" where
  "entry_website (ResultDict r) = website r"
| "entry_website (ErrorDict url x) = url"

fun has_error :: "scan_entry \<Rightarrow> bool" where
  "has_error (ResultDict r) = False"
| "has_error (ErrorDict url x) = True"

text \<open>A license label as \<open>determine_cc_license\<close> builds it.\<close>

definition is_label :: "string \<Rightarrow> bool" where
  "is_label t \<longleftrightarrow> t = ''Unknown'' \<or> t = ''CC0'' \<or> prefix ''CC-'' t"

text \<open>What one link contributes to the aggregated content when nothing raises.\<close>

definition link_text :: "env \<Rightarrow> string \<Rightarrow> string" where
  "link_text e link =
     (case fetch_page e link of
        Inr c \<Rightarrow> if falsy c then []
                 else (case parse_html e c of Inr sp \<Rightarrow> extract_relevant_text sp | Inl x \<Rightarrow> [])
      | Inl x \<Rightarrow> [])"

section \<open>A small world for concrete runs\<close>

text \<open>
  One host, \<open>https://x.org\<close>, whose \<open>robots.txt\<close> is missing (404). Pages are named by
  their body; \<open>example_soup\<close> is what the parser makes of each body.
\<close>

definition example_get :: "string \<Rightarrow> http_outcome" where
  "example_get url =
     (if url = ''https://x.org/robots.txt'' then Response 404 []
      else if url = ''https://x.org/'' then Response 200 ''HOME''
      else if url = ''https://x.org/zero'' then Response 200 ''ZERO''
      else if url = ''https://x.org/plain'' then Response 200 ''PLAIN''
      else if url = ''https://x.org/mit'' then Response 200 ''MIT''
      else if url = ''https://x.org/flaky'' then Response 200 ''FLAKY''
      else if url = ''https://x.org/bracket'' then Response 200 ''BRACKET''
      else if url = ''https://x.org/terms'' then Response 200 ''TERMS''
      else if url = ''https://x.org/empty'' then Response 200 []
      else if url = ''https://x.org/missing'' then Response 404 ''NOT FOUND''
      else Raises (RequestException ''connection refused''))"

definition home_soup :: soup where
  "home_soup =
     \<lparr>footers = [ [Anchor (Some ''https://creativecommons.org/licenses/by/4.0/'') ''CC BY 4.0'',
                  Anchor (Some ''/terms'') ''Terms of Use''] ],
      text_elements = []\<rparr>"

definition zero_soup :: soup where
  "zero_soup =
     \<lparr>footers = [ [Anchor (Some ''https://creativecommons.org/publicdomain/zero/1.0/'') ''CC0''] ],
      text_elements = []\<rparr>"

definition plain_soup :: soup where
  "plain_soup = \<lparr>footers = [ [Anchor (Some ''/terms'') ''Terms''] ], text_elements = []\<rparr>"

definition mit_soup :: soup where
  "mit_soup =
     \<lparr>footers = [ [Anchor None ''Apache License 2.0'',
                  Anchor (Some ''/license'') '' MIT License '',
                  Anchor (Some ''/use'') ''Conditions of Use'',
                  Anchor (Some ''/gpl'') ''GNU GPL''],
                 [Anchor (Some ''/legal'') ''Legal notice''] ],
      text_elements = []\<rparr>"

definition flaky_soup :: soup where
  "flaky_soup =
     \<lparr>footers = [ [Anchor (Some ''/terms'') ''Terms'',
                  Anchor (Some ''/down'') ''Privacy policy''] ],
      text_elements = []\<rparr>"

definition bracket_soup :: soup where
  "bracket_soup =
     \<lparr>footers = [ [Anchor (Some ''http://[bad'') ''Contact'',
                  Anchor (Some ''/license'') ''MIT License''] ],
      text_elements = []\<rparr>"

definition terms_soup :: soup where
  "terms_soup =
     \<lparr>footers = [],
      text_elements = [''These photos are licensed under CC0. Enjoy.'']\<rparr>"

definition example_soup :: "string \<Rightarrow> exn + soup" where
  "example_soup b =
     (if b = ''HOME'' then Inr home_soup
      else if b = ''ZERO'' then Inr zero_soup
      else if b = ''PLAIN'' then Inr plain_soup
      else if b = ''MIT'' then Inr mit_soup
      else if b = ''FLAKY'' then Inr flaky_soup
      else if b = ''BRACKET'' then Inr bracket_soup
      else if b = ''TERMS'' then Inr terms_soup
      else Inl (OtherException ''parser rejected markup''))"

definition example_urljoin :: "string \<Rightarrow> string \<Rightarrow> exn + string" where
  "example_urljoin base h =
     (if prefix ''http://['' h then Inl (ValueError ''Invalid IPv6 URL'')
      else if prefix ''http'' h then Inr h
      else Inr (''https://x.org'' @ h))"

definition example_env :: env where
  "example_env =
     \<lparr>validators_url = (\<lambda>url. prefix ''http://'' url \<or> prefix ''https://'' url),
      urlparse = (\<lambda>url. Inr (''https'', ''x.org'')),
      urljoin = example_urljoin,
      session_get = example_get,
      protego_parse = (\<lambda>txt. Inr (Robots (\<lambda>url agent. \<not> py_in ''Disallow: /'' txt))),
      beautiful_soup = example_soup\<rparr>"

definition use_anchor :: anchor where
  "use_anchor = Anchor (Some ''/use'') ''Conditions of Use''"

definition mit_anchor :: anchor where
  "mit_anchor = Anchor (Some ''/license'') '' MIT License ''"

text \<open>The same host, now serving a \<open>robots.txt\<close> that shuts every crawler out.\<close>

definition closed_env :: env where
  "closed_env =
     example_env\<lparr>session_get :=
       (\<lambda>url. if url = ''https://x.org/robots.txt''
              then Response 200 ''User-agent: * Disallow: /''
              else example_get url)\<rparr>"

section \<open>The URL stage of the classifier\<close>

lemma find_append_opt:
  "find P (xs @ ys) = (case find P xs of None \<Rightarrow> find P ys | Some x \<Rightarrow> Some x)"
  by (induction xs) auto

lemma url_types_loop_find:
  "url_types_loop u v ts = first_hit u (map (\<lambda>cc_type. (v, cc_type)) ts)"
  by (induction ts) (auto simp: first_hit_def url_hit_def url_label_def)

lemma url_versions_loop_find:
  "url_versions_loop u vs =
     first_hit u (concat (map (\<lambda>version. map (\<lambda>cc_type. (version, cc_type)) CC_TYPES) vs))"
proof (induction vs)
  case Nil
  show ?case by (simp add: first_hit_def)
next
  case (Cons v vs)
  show ?case
  proof (cases "url_types_loop u v CC_TYPES")
    case None
    then have "find (url_hit u) (map (\<lambda>cc_type. (v, cc_type)) CC_TYPES) = None"
      by (simp add: url_types_loop_find first_hit_def)
    with None Cons show ?thesis
      by (simp add: first_hit_def find_append_opt)
  next
    case (Some l)
    then obtain c where "find (url_hit u) (map (\<lambda>cc_type. (v, cc_type)) CC_TYPES) = Some c"
      and "l = url_label c"
      by (auto simp: url_types_loop_find first_hit_def)
    with Some show ?thesis
      by (simp add: first_hit_def find_append_opt)
  qed
qed

lemma extract_license_from_url_first_hit:
  "extract_license_from_url u = first_hit u version_major"
  by (simp add: extract_license_from_url_def url_versions_loop_find version_major_def)

lemma version_major_list: "version_major =
  [(''1.0'', ''BY''), (''1.0'', ''BY-SA''), (''1.0'', ''BY-ND''),
   (''1.0'', ''BY-NC''), (''1.0'', ''BY-NC-SA''), (''1.0'', ''BY-NC-ND''),
   (''2.0'', ''BY''), (''2.0'', ''BY-SA''), (''2.0'', ''BY-ND''),
   (''2.0'', ''BY-NC''), (''2.0'', ''BY-NC-SA''), (''2.0'', ''BY-NC-ND''),
   (''2.5'', ''BY''), (''2.5'', ''BY-SA''), (''2.5'', ''BY-ND''),
   (''2.5'', ''BY-NC''), (''2.5'', ''BY-NC-SA''), (''2.5'', ''BY-NC-ND''),
   (''3.0'', ''BY''), (''3.0'', ''BY-SA''), (''3.0'', ''BY-ND''),
   (''3.0'', ''BY-NC''), (''3.0'', ''BY-NC-SA''), (''3.0'', ''BY-NC-ND''),
   (''4.0'', ''BY''), (''4.0'', ''BY-SA''), (''4.0'', ''BY-ND''),
   (''4.0'', ''BY-NC''), (''4.0'', ''BY-NC-SA''), (''4.0'', ''BY-NC-ND'')]"
  by (simp add: version_major_def CC_TYPES_def CC_VERSIONS_def)

text \<open>
  Claim C5, as the code has it. The URL stage scans the 30 combinations of the 5 versions
  and 6 types version by version (version-major, type-minor: all six types of 1.0, then
  all six types of 2.0, and so on), and returns the label \<open>CC-{type}-{version}\<close> of the
  first combination whose substring \<open>licenses/{type}/{version}\<close> occurs in the
  lowercased URL, or nothing when none occurs.
\<close>

theorem url_scan_version_major:
  "extract_license_from_url u = first_hit u version_major
   \<and> length version_major = 30
   \<and> take 7 version_major
       = [(''1.0'', ''BY''), (''1.0'', ''BY-SA''), (''1.0'', ''BY-ND''), (''1.0'', ''BY-NC''),
          (''1.0'', ''BY-NC-SA''), (''1.0'', ''BY-NC-ND''), (''2.0'', ''BY'')]"
  by (simp add: extract_license_from_url_first_hit version_major_list)

text \<open>
  A URL with one license path is classified by that path: an instance of the scan.
\<close>

theorem url_scan_version_major_witness:
  "extract_license_from_url ''https://creativecommons.org/licenses/by-nc-sa/3.0/''
     = Some ''CC-BY-NC-SA-3.0''"
proof -
  have "first_hit ''https://creativecommons.org/licenses/by-nc-sa/3.0/'' version_major
          = Some ''CC-BY-NC-SA-3.0''"
    by code_simp
  with url_scan_version_major [of "''https://creativecommons.org/licenses/by-nc-sa/3.0/''"]
  show ?thesis by simp
qed

text \<open>
  Claim C5 as stated (type-major, version-minor order) fails: on a URL in which both
  \<open>licenses/by/4.0\<close> and \<open>licenses/by-sa/1.0\<close> occur, the type-major scan meets BY 4.0
  first, while the code returns the label of BY-SA 1.0.
\<close>

theorem url_scan_type_major_counterexample:
  "extract_license_from_url ''https://x.org/licenses/by/4.0/?alt=licenses/by-sa/1.0''
     = Some ''CC-BY-SA-1.0''
   \<and> first_hit ''https://x.org/licenses/by/4.0/?alt=licenses/by-sa/1.0'' type_major
     = Some ''CC-BY-4.0''"
  by code_simp

section \<open>The text stage of the classifier\<close>

text \<open>
  Claim C7. For the text \<open>Creative Commons Attribution-ShareAlike 4.0\<close>,
  \<open>extract_licenses\<close> contains \<open>Creative Commons (CC)\<close>, and \<open>determine_cc_license\<close>
  with an empty URL returns \<open>CC-BY-SA-4.0\<close>.
\<close>

theorem scenario_c:
  "''Creative Commons (CC)''
      \<in> set (extract_licenses ''Creative Commons Attribution-ShareAlike 4.0'')
   \<and> determine_cc_license [] ''Creative Commons Attribution-ShareAlike 4.0'' = ''CC-BY-SA-4.0''"
  by code_simp

section \<open>Per-site processing\<close>

lemma determine_cc0:
  "cc0_indicator url t \<Longrightarrow> determine_cc_license url t = ''CC0''"
  by (auto simp: cc0_indicator_def determine_cc_license_def check_for_cc0_def lower_def Let_def)

text \<open>The four ways \<open>_process_website\<close> returns a result.\<close>

lemma process_website_cases:
  assumes "process_website e ua url = Inr r"
  shows "(\<not> validate_url e url \<and> r = (initial_result url)\<lparr>invalidUrl := True\<rparr>)
    \<or> (validate_url e url \<and> \<not> is_allowed_by_robots e ua (normalize_url e url)
        \<and> r = (initial_result url)\<lparr>blockedByRobotsTxt := True\<rparr>)
    \<or> (validate_url e url \<and> is_allowed_by_robots e ua (normalize_url e url)
        \<and> (\<exists>c. fetch_page e url = Inr c \<and> falsy c) \<and> r = initial_result url)
    \<or> (validate_url e url \<and> is_allowed_by_robots e ua (normalize_url e url)
        \<and> (\<exists>b sp link t rel cont.
              fetch_page e url = Inr (Some b) \<and> b \<noteq> [] \<and> beautiful_soup e b = Inr sp
              \<and> extract_footer_links (urljoin e) (Some sp) url = Inr (link, t, rel)
              \<and> process_relevant_links e rel = Inr cont
              \<and> r = (initial_result url)
                    \<lparr>licenseLink := Some link,
                     licenseType := Some (if determine_cc_license link t = ''Unknown''
                                          then determine_cc_license [] cont
                                          else determine_cc_license link t),
                     relevantLinks := rel,
                     content := Some cont,
                     licenseMentions := extract_licenses cont\<rparr>))"
  using assms
  by (auto simp: process_website_def Let_def parse_html_def falsy_def
      split: if_splits sum.splits option.splits prod.splits)

lemma process_website_website:
  "process_website e ua url = Inr r \<Longrightarrow> website r = url"
  by (drule process_website_cases) (auto simp: initial_result_def)

text \<open>
  Claim C1, as the code has it. Within one call of \<open>determine_cc_license\<close> a CC0 indicator
  (the lowercased URL contains \<open>publicdomain/zero\<close>, or the lowercased text contains
  \<open>cc0\<close> or \<open>creative commons zero\<close>) always gives \<open>CC0\<close>, whatever else the URL or the
  text match. For a site whose processing returns a result with a licenseType (the URL
  is valid, robots.txt allows it, the primary page is not empty, and neither the footer
  extraction nor the secondary fetches raise): a CC0 indicator in the license link or
  its anchor text gives licenseType \<open>CC0\<close>; a CC0 indicator in the aggregated content
  gives \<open>CC0\<close> when the classification from the link and its text was \<open>Unknown\<close>; and
  when that classification was not \<open>Unknown\<close> it is the licenseType, whatever the
  aggregated content says.
\<close>

theorem cc0_precedence:
  assumes run: "process_website e ua url = Inr r"
    and full: "licenseType r \<noteq> None"
    and page: "fetch_page e url = Inr (Some b)" "beautiful_soup e b = Inr sp"
    and foot: "extract_footer_links (urljoin e) (Some sp) url = Inr (link, t, rel)"
  shows "(cc0_indicator u w \<longrightarrow> determine_cc_license u w = ''CC0'')
    \<and> (cc0_indicator link t \<longrightarrow> licenseType r = Some ''CC0'')
    \<and> (determine_cc_license link t = ''Unknown'' \<longrightarrow>
         (\<forall>cont. content r = Some cont \<and> cc0_indicator [] cont \<longrightarrow> licenseType r = Some ''CC0''))
    \<and> (determine_cc_license link t \<noteq> ''Unknown'' \<longrightarrow>
         licenseType r = Some (determine_cc_license link t))"
proof -
  from process_website_cases [OF run] full page foot
  obtain cont where r: "r = (initial_result url)
                    \<lparr>licenseLink := Some link,
                     licenseType := Some (if determine_cc_license link t = ''Unknown''
                                          then determine_cc_license [] cont
                                          else determine_cc_license link t),
                     relevantLinks := rel,
                     content := Some cont,
                     licenseMentions := extract_licenses cont\<rparr>"
    by (auto simp: initial_result_def)
  show ?thesis
    using determine_cc0 [of link t] determine_cc0 [of "[]"] determine_cc0 [of u w]
    by (auto simp: r)
qed

text \<open>
  Two sites of the example world: one whose footer links to the CC0 deed, and one with no
  license link whose terms page mentions CC0. Both get licenseType \<open>CC0\<close>; and a text
  with \<open>cc0\<close> beats a URL with a \<open>licenses/by/4.0\<close> path.
\<close>

theorem cc0_precedence_witness:
  "cc0_indicator ''https://creativecommons.org/licenses/by/4.0/'' ''CC BY or CC0''
   \<and> determine_cc_license ''https://creativecommons.org/licenses/by/4.0/'' ''CC BY or CC0'' = ''CC0''
   \<and> cc0_indicator ''https://creativecommons.org/publicdomain/zero/1.0/'' ''CC0''
   \<and> process_website example_env USER_AGENT ''https://x.org/zero'' =
     Inr \<lparr>website = ''https://x.org/zero'', invalidUrl = False, blockedByRobotsTxt = False,
          licenseLink = Some ''https://creativecommons.org/publicdomain/zero/1.0/'',
          licenseType = Some ''CC0'', relevantLinks = [],
          licenseMentions = [], content = Some []\<rparr>
   \<and> determine_cc_license [] [] = ''Unknown''
   \<and> cc0_indicator [] ''These photos are licensed under CC0''
   \<and> process_website example_env USER_AGENT ''https://x.org/plain'' =
     Inr \<lparr>website = ''https://x.org/plain'', invalidUrl = False, blockedByRobotsTxt = False,
          licenseLink = Some [],
          licenseType = Some ''CC0'', relevantLinks = [''https://x.org/terms''],
          licenseMentions = [''Creative Commons (CC)''],
          content = Some ''These photos are licensed under CC0''\<rparr>"
proof -
  let ?z = "\<lparr>website = ''https://x.org/zero'', invalidUrl = False, blockedByRobotsTxt = False,
          licenseLink = Some ''https://creativecommons.org/publicdomain/zero/1.0/'',
          licenseType = Some ''CC0'', relevantLinks = [],
          licenseMentions = [], content = Some []\<rparr>"
  let ?p = "\<lparr>website = ''https://x.org/plain'', invalidUrl = False, blockedByRobotsTxt = False,
          licenseLink = Some [],
          licenseType = Some ''CC0'', relevantLinks = [''https://x.org/terms''],
          licenseMentions = [''Creative Commons (CC)''],
          content = Some ''These photos are licensed under CC0''\<rparr>"
  have z1: "process_website example_env USER_AGENT ''https://x.org/zero'' = Inr ?z"
    by code_simp
  have z2: "licenseType ?z \<noteq> None" by simp
  have z3: "fetch_page example_env ''https://x.org/zero'' = Inr (Some ''ZERO'')"
    by code_simp
  have z4: "beautiful_soup example_env ''ZERO'' = Inr zero_soup"
    by (simp add: example_env_def example_soup_def)
  have z5: "extract_footer_links (urljoin example_env) (Some zero_soup) ''https://x.org/zero''
              = Inr (''https://creativecommons.org/publicdomain/zero/1.0/'', ''CC0'', [])"
    by code_simp
  have z6: "cc0_indicator ''https://creativecommons.org/publicdomain/zero/1.0/'' ''CC0''"
    by code_simp
  have z7: "cc0_indicator ''https://creativecommons.org/licenses/by/4.0/'' ''CC BY or CC0''"
    by code_simp
  have p1: "process_website example_env USER_AGENT ''https://x.org/plain'' = Inr ?p"
    by code_simp
  have p2: "licenseType ?p \<noteq> None" by simp
  have p3: "fetch_page example_env ''https://x.org/plain'' = Inr (Some ''PLAIN'')"
    by code_simp
  have p4: "beautiful_soup example_env ''PLAIN'' = Inr plain_soup"
    by (simp add: example_env_def example_soup_def)
  have p5: "extract_footer_links (urljoin example_env) (Some plain_soup) ''https://x.org/plain''
              = Inr ([], [], [''https://x.org/terms''])"
    by code_simp
  have p6: "determine_cc_license [] [] = ''Unknown''"
    by (simp add: determine_cc_license_def)
  have p7: "cc0_indicator [] ''These photos are licensed under CC0''"
    by code_simp
  from cc0_precedence [OF z1 z2 z3 z4 z5,
      of "''https://creativecommons.org/licenses/by/4.0/''" "''CC BY or CC0''"]
    cc0_precedence [OF p1 p2 p3 p4 p5] z1 z6 z7 p1 p6 p7
  show ?thesis by simp
qed

text \<open>
  Claim C1 as stated fails for a signal that reaches the site only through the aggregated
  content: the home page of the example world links to the BY 4.0 deed, its terms page
  says \<open>CC0\<close>, and the licenseType is \<open>CC-BY-4.0\<close>.
\<close>

theorem cc0_precedence_counterexample:
  "process_website example_env USER_AGENT ''https://x.org/'' =
     Inr \<lparr>website = ''https://x.org/'', invalidUrl = False, blockedByRobotsTxt = False,
          licenseLink = Some ''https://creativecommons.org/licenses/by/4.0/'',
          licenseType = Some ''CC-BY-4.0'', relevantLinks = [''https://x.org/terms''],
          licenseMentions = [''Creative Commons (CC)''],
          content = Some ''These photos are licensed under CC0''\<rparr>
   \<and> cc0_indicator [] ''These photos are licensed under CC0''"
  by code_simp

lemma extract_license_from_url_label:
  "extract_license_from_url u = Some l \<Longrightarrow> prefix ''CC-'' l"
  by (auto simp: extract_license_from_url_first_hit first_hit_def url_label_def)

lemma determine_is_label: "is_label (determine_cc_license url t)"
  by (auto simp: determine_cc_license_def is_label_def check_for_cc0_def Let_def
      extract_license_from_text_def
      dest: extract_license_from_url_label split: option.splits if_splits)

text \<open>
  Claim C9, as the code has it. In a result of a site that ran the full pipeline the
  licenseType is a string: \<open>Unknown\<close>, \<open>CC0\<close> or a label that starts with \<open>CC-\<close>. In
  the short-circuit outcomes (invalid URL, blocked by robots.txt, empty primary fetch)
  the licenseType keeps its initial value \<open>None\<close>.
\<close>

theorem license_type_values:
  assumes "process_website e ua url = Inr r"
  shows "if \<not> validate_url e url \<or> \<not> is_allowed_by_robots e ua (normalize_url e url)
            \<or> (\<exists>c. fetch_page e url = Inr c \<and> falsy c)
         then licenseType r = None
         else (\<exists>t. licenseType r = Some t \<and> is_label t)"
  using process_website_cases [OF assms] determine_is_label
  by (auto simp: initial_result_def falsy_def)

text \<open>The CC0 site of the example world runs the full pipeline; the empty string is an invalid URL.\<close>

theorem license_type_values_witness:
  "process_website example_env USER_AGENT ''https://x.org/zero'' =
     Inr \<lparr>website = ''https://x.org/zero'', invalidUrl = False, blockedByRobotsTxt = False,
          licenseLink = Some ''https://creativecommons.org/publicdomain/zero/1.0/'',
          licenseType = Some ''CC0'', relevantLinks = [],
          licenseMentions = [], content = Some []\<rparr>
   \<and> validate_url example_env ''https://x.org/zero''
   \<and> is_allowed_by_robots example_env USER_AGENT (normalize_url example_env ''https://x.org/zero'')
   \<and> fetch_page example_env ''https://x.org/zero'' = Inr (Some ''ZERO'')
   \<and> is_label ''CC0''
   \<and> process_website example_env USER_AGENT [] = Inr ((initial_result [])\<lparr>invalidUrl := True\<rparr>)
   \<and> \<not> validate_url example_env []
   \<and> licenseType ((initial_result [])\<lparr>invalidUrl := True\<rparr>) = None"
proof -
  let ?z = "\<lparr>website = ''https://x.org/zero'', invalidUrl = False, blockedByRobotsTxt = False,
          licenseLink = Some ''https://creativecommons.org/publicdomain/zero/1.0/'',
          licenseType = Some ''CC0'', relevantLinks = [],
          licenseMentions = [], content = Some []\<rparr>"
  have z: "process_website example_env USER_AGENT ''https://x.org/zero'' = Inr ?z"
    by code_simp
  have v: "validate_url example_env ''https://x.org/zero''" by code_simp
  have a: "is_allowed_by_robots example_env USER_AGENT (normalize_url example_env ''https://x.org/zero'')"
    by code_simp
  have f: "fetch_page example_env ''https://x.org/zero'' = Inr (Some ''ZERO'')" by code_simp
  have nf: "\<not> (\<exists>c. fetch_page example_env ''https://x.org/zero'' = Inr c \<and> falsy c)"
    by (simp add: f falsy_def)
  from license_type_values [OF z] v a nf have "is_label ''CC0''" by simp
  moreover
  have i: "process_website example_env USER_AGENT [] = Inr ((initial_result [])\<lparr>invalidUrl := True\<rparr>)"
    by (simp add: process_website_def validate_url_def)
  have nv: "\<not> validate_url example_env []" by (simp add: validate_url_def)
  from license_type_values [OF i] nv
  have "licenseType ((initial_result [])\<lparr>invalidUrl := True\<rparr>) = None" by simp
  ultimately show ?thesis using z v a f i nv by simp
qed

text \<open>
  Claim C9 as stated fails: the results for an invalid URL, for a page with empty content
  and for a site blocked by robots.txt have licenseType \<open>None\<close>, which is neither a
  label nor the string \<open>Unknown\<close>.
\<close>

theorem license_type_values_counterexample:
  "scan_websites example_env USER_AGENT [''not a url'', ''https://x.org/empty'']
     = [ResultDict \<lparr>website = ''not a url'', invalidUrl = True, blockedByRobotsTxt = False,
                    licenseLink = None, licenseType = None, relevantLinks = [],
                    licenseMentions = [], content = None\<rparr>,
        ResultDict \<lparr>website = ''https://x.org/empty'', invalidUrl = False,
                    blockedByRobotsTxt = False,
                    licenseLink = None, licenseType = None, relevantLinks = [],
                    licenseMentions = [], content = None\<rparr>]
   \<and> scan_websites closed_env USER_AGENT [''https://x.org/'']
     = [ResultDict \<lparr>website = ''https://x.org/'', invalidUrl = False, blockedByRobotsTxt = True,
                    licenseLink = None, licenseType = None, relevantLinks = [],
                    licenseMentions = [], content = None\<rparr>]"
  by code_simp

section \<open>Fetch failures\<close>

lemma fetch_page_raises_iff:
  "fetch_page e url = Inl x \<longleftrightarrow>
     url \<noteq> [] \<and> (session_get e url = Raises x
                 \<or> (\<exists>status b. session_get e url = Response status b
                        \<and> 400 \<le> status \<and> status < 600 \<and> x = HTTPError status))"
  by (auto simp: fetch_page_def split: http_outcome.splits if_splits)

text \<open>A primary fetch that raises makes the site an error entry; an empty one does not.\<close>

lemma primary_fetch_raises:
  "validate_url e url \<Longrightarrow> is_allowed_by_robots e ua (normalize_url e url) \<Longrightarrow>
   fetch_page e url = Inl x \<Longrightarrow>
   process_website e ua url = Inl x \<and> scan_websites e ua [url] = [ErrorDict url x]"
  by (simp add: process_website_def scan_websites_def Let_def)

lemma empty_primary_fetch:
  "validate_url e url \<Longrightarrow> is_allowed_by_robots e ua (normalize_url e url) \<Longrightarrow>
   fetch_page e url = Inr c \<Longrightarrow> falsy c \<Longrightarrow>
   process_website e ua url = Inr (initial_result url)"
  by (simp add: process_website_def Let_def)

text \<open>
  Claim C2 at a failing input. In the example world \<open>https://x.org/missing\<close> answers 404
  and \<open>https://x.org/gone\<close> refuses the connection. \<open>fetch_page\<close> raises in both cases
  (its docstring promises \<open>None\<close>), and the scan records an error entry for the site
  instead of a result with default fields.
\<close>

theorem primary_fetch_failure_is_error:
  "fetch_page example_env ''https://x.org/missing'' = Inl (HTTPError 404)
   \<and> scan_websites example_env USER_AGENT [''https://x.org/missing'']
       = [ErrorDict ''https://x.org/missing'' (HTTPError 404)]
   \<and> fetch_page example_env ''https://x.org/gone'' = Inl (RequestException ''connection refused'')
   \<and> scan_websites example_env USER_AGENT [''https://x.org/gone'']
       = [ErrorDict ''https://x.org/gone'' (RequestException ''connection refused'')]"
  by code_simp

text \<open>One link whose fetch raises makes the whole aggregation raise.\<close>

lemma relevant_links_loop_raises:
  "link \<in> set links \<Longrightarrow> fetch_page e link = Inl x \<Longrightarrow>
   \<exists>y. relevant_links_loop e combined links = Inl y"
proof (induction links arbitrary: combined)
  case Nil
  then show ?case by simp
next
  case (Cons l ls)
  show ?case
  proof (cases "l = link")
    case True
    with Cons.prems show ?thesis by simp
  next
    case False
    with Cons.prems have "link \<in> set ls" by simp
    from Cons.IH [OF this Cons.prems(2)] show ?thesis
      by (auto simp: Let_def split: sum.splits)
  qed
qed

text \<open>When no fetch and no parse raises, the result is the join of the non-empty texts.\<close>

lemma relevant_links_loop_ok:
  "\<forall>link \<in> set links. \<exists>c. fetch_page e link = Inr c
       \<and> (falsy c \<or> (\<exists>sp. parse_html e c = Inr sp)) \<Longrightarrow>
   relevant_links_loop e combined links
     = Inr (combined @ filter (\<lambda>t. t \<noteq> []) (map (link_text e) links))"
proof (induction links arbitrary: combined)
  case Nil
  show ?case by simp
next
  case (Cons l ls)
  from Cons.prems obtain c where c: "fetch_page e l = Inr c"
    "falsy c \<or> (\<exists>sp. parse_html e c = Inr sp)" by auto
  from Cons.prems have rest: "\<forall>link \<in> set ls. \<exists>c. fetch_page e link = Inr c
       \<and> (falsy c \<or> (\<exists>sp. parse_html e c = Inr sp))" by simp
  show ?case
    using c Cons.IH [OF rest] by (auto simp: link_text_def Let_def)
qed

lemma process_relevant_links_ok:
  "\<forall>link \<in> set links. \<exists>c. fetch_page e link = Inr c
       \<and> (falsy c \<or> (\<exists>sp. parse_html e c = Inr sp)) \<Longrightarrow>
   process_relevant_links e links
     = Inr (join '' '' (filter (\<lambda>t. t \<noteq> []) (map (link_text e) links)))"
  using relevant_links_loop_ok [of links e "[]"]
  by (cases links) (simp_all add: process_relevant_links_def)

text \<open>
  Claim C3 at a failing input. Of the two relevant links of \<open>https://x.org/flaky\<close>, the
  terms page is served and \<open>https://x.org/down\<close> refuses the connection. The failure is
  not swallowed: \<open>process_relevant_links\<close> raises instead of returning the text of the
  terms page, and the site becomes an error entry.
\<close>

theorem secondary_fetch_failure_escalates:
  "process_relevant_links example_env [''https://x.org/terms'', ''https://x.org/down'']
     = Inl (RequestException ''connection refused'')
   \<and> process_relevant_links example_env [''https://x.org/terms'']
     = Inr ''These photos are licensed under CC0''
   \<and> scan_websites example_env USER_AGENT [''https://x.org/flaky'']
     = [ErrorDict ''https://x.org/flaky'' (RequestException ''connection refused'')]"
  by code_simp

section \<open>The batch scan\<close>

lemma scan_loop_map:
  "scan_loop e ua acc sites =
     acc @ map (\<lambda>url. case process_website e ua url of
                         Inr result \<Rightarrow> ResultDict result
                       | Inl x \<Rightarrow> ErrorDict url x) sites"
  by (induction sites arbitrary: acc) auto

lemma scan_websites_map:
  "scan_websites e ua sites =
     map (\<lambda>url. case process_website e ua url of
                   Inr result \<Rightarrow> ResultDict result
                 | Inl x \<Rightarrow> ErrorDict url x) sites"
  by (simp add: scan_websites_def scan_loop_map)

text \<open>
  Claim C6. The scan returns one entry per input site, in input order: the list has the
  length of the input, the entry at each position carries the website string of the site
  at that position, it has an error key exactly when processing that site raised, and
  otherwise it is the result of processing that site. So when exactly one site raises,
  only its entry is an error entry and every other entry is what its own site yields.
\<close>

theorem scan_websites_isolation:
  "length (scan_websites e ua sites) = length sites
   \<and> (\<forall>i < length sites.
        entry_website (scan_websites e ua sites ! i) = sites ! i
        \<and> (has_error (scan_websites e ua sites ! i) \<longleftrightarrow> isl (process_website e ua (sites ! i)))
        \<and> (\<forall>r. process_website e ua (sites ! i) = Inr r \<longrightarrow>
               scan_websites e ua sites ! i = ResultDict r)
        \<and> (\<forall>x. process_website e ua (sites ! i) = Inl x \<longrightarrow>
               scan_websites e ua sites ! i = ErrorDict (sites ! i) x))"
  by (auto simp: scan_websites_map process_website_website split: sum.splits)

text \<open>Three sites of the example world, the second of which raises.\<close>

theorem scan_websites_isolation_witness:
  "length (scan_websites example_env USER_AGENT
             [''not a url'', ''https://x.org/missing'', ''https://x.org/zero'']) = 3
   \<and> (1::nat) < length [''not a url'', ''https://x.org/missing'', ''https://x.org/zero'']
   \<and> process_website example_env USER_AGENT ''https://x.org/missing'' = Inl (HTTPError 404)
   \<and> scan_websites example_env USER_AGENT
        [''not a url'', ''https://x.org/missing'', ''https://x.org/zero''] ! 1
       = ErrorDict ''https://x.org/missing'' (HTTPError 404)
   \<and> \<not> has_error (scan_websites example_env USER_AGENT
                     [''not a url'', ''https://x.org/missing'', ''https://x.org/zero''] ! 0)
   \<and> \<not> has_error (scan_websites example_env USER_AGENT
                     [''not a url'', ''https://x.org/missing'', ''https://x.org/zero''] ! 2)
   \<and> entry_website (scan_websites example_env USER_AGENT
                       [''not a url'', ''https://x.org/missing'', ''https://x.org/zero''] ! 2)
       = ''https://x.org/zero''"
proof -
  let ?sites = "[''not a url'', ''https://x.org/missing'', ''https://x.org/zero'']"
  have p0: "\<not> isl (process_website example_env USER_AGENT (?sites ! 0))" by code_simp
  have p1: "process_website example_env USER_AGENT (?sites ! 1) = Inl (HTTPError 404)"
    by code_simp
  have p2: "\<not> isl (process_website example_env USER_AGENT (?sites ! 2))" by code_simp
  have i: "(0::nat) < length ?sites" "(1::nat) < length ?sites" "(2::nat) < length ?sites"
    by simp_all
  note t = scan_websites_isolation [of example_env USER_AGENT ?sites]
  from t have len: "length (scan_websites example_env USER_AGENT ?sites) = length ?sites"
    by blast
  from t i(1) p0 have e0: "\<not> has_error (scan_websites example_env USER_AGENT ?sites ! 0)"
    by blast
  from t i(2) p1 have e1: "scan_websites example_env USER_AGENT ?sites ! 1
       = ErrorDict (?sites ! 1) (HTTPError 404)" by blast
  from t i(3) p2 have e2: "\<not> has_error (scan_websites example_env USER_AGENT ?sites ! 2)"
    by blast
  from t i(3) have w2: "entry_website (scan_websites example_env USER_AGENT ?sites ! 2) = ?sites ! 2"
    by blast
  from len e0 e1 e2 w2 p1 show ?thesis by simp
qed

section \<open>The robots policy\<close>

text \<open>
  Claim C8. For a non-empty URL: when \<open>fetch_robots\<close> yields nothing, crawling is
  allowed; it yields nothing when building the robots.txt URL raises, when the request
  raises, when the status is not 200 and when parsing raises; and crawling is refused
  only when robots.txt was retrieved with status 200, parsed, and its \<open>can_fetch\<close> says
  no.
\<close>

theorem robots_fail_open:
  assumes "url \<noteq> []"
  shows "(fetch_robots e url = None \<longrightarrow> is_allowed_by_robots e ua url)
    \<and> ((\<exists>x. urljoin e url ''/robots.txt'' = Inl x) \<longrightarrow> fetch_robots e url = None)
    \<and> (\<forall>target. urljoin e url ''/robots.txt'' = Inr target \<longrightarrow>
          ((\<exists>x. session_get e target = Raises x) \<longrightarrow> fetch_robots e url = None)
          \<and> ((\<exists>status t. session_get e target = Response status t \<and> status \<noteq> 200)
                \<longrightarrow> fetch_robots e url = None)
          \<and> ((\<exists>status t x. session_get e target = Response status t
                  \<and> protego_parse e t = Inl x)
                \<longrightarrow> fetch_robots e url = None))
    \<and> (\<not> is_allowed_by_robots e ua url \<longrightarrow>
          (\<exists>target t r. urljoin e url ''/robots.txt'' = Inr target
             \<and> session_get e target = Response 200 t
             \<and> protego_parse e t = Inr r \<and> fetch_robots e url = Some r
             \<and> \<not> can_fetch r url ua))"
  using assms
  by (auto simp: is_allowed_by_robots_def fetch_robots_def
      split: http_outcome.splits sum.splits option.splits if_splits)

text \<open>The example host without robots.txt is open; with the closing robots.txt it is not.\<close>

theorem robots_fail_open_witness:
  "''https://x.org'' \<noteq> []
   \<and> urljoin example_env ''https://x.org'' ''/robots.txt'' = Inr ''https://x.org/robots.txt''
   \<and> session_get example_env ''https://x.org/robots.txt'' = Response 404 []
   \<and> fetch_robots example_env ''https://x.org'' = None
   \<and> is_allowed_by_robots example_env USER_AGENT ''https://x.org''
   \<and> \<not> is_allowed_by_robots closed_env USER_AGENT ''https://x.org''
   \<and> session_get closed_env ''https://x.org/robots.txt''
       = Response 200 ''User-agent: * Disallow: /''"
proof -
  have n: "''https://x.org'' \<noteq> []" by simp
  have j: "urljoin example_env ''https://x.org'' ''/robots.txt'' = Inr ''https://x.org/robots.txt''"
    by code_simp
  have g: "session_get example_env ''https://x.org/robots.txt'' = Response 404 []"
    by code_simp
  have c: "session_get closed_env ''https://x.org/robots.txt''
       = Response 200 ''User-agent: * Disallow: /''"
    by code_simp
  have d: "\<not> is_allowed_by_robots closed_env USER_AGENT ''https://x.org''"
    by code_simp
  from robots_fail_open [OF n, of example_env USER_AGENT] j g
  have "fetch_robots example_env ''https://x.org'' = None"
    "is_allowed_by_robots example_env USER_AGENT ''https://x.org''"
    by auto
  moreover from robots_fail_open [OF n, of closed_env USER_AGENT] d
  have "\<exists>target t r. urljoin closed_env ''https://x.org'' ''/robots.txt'' = Inr target
             \<and> session_get closed_env target = Response 200 t
             \<and> protego_parse closed_env t = Inr r" by blast
  ultimately show ?thesis using n j g c d by simp
qed

section \<open>Footer links\<close>

lemma footer_links_loop_append:
  "footer_links_loop j b st (xs @ ys) =
     (case footer_links_loop j b st xs of
        Inl x \<Rightarrow> Inl x
      | Inr st' \<Rightarrow> footer_links_loop j b st' ys)"
  by (induction xs arbitrary: st) (auto split: sum.splits)

lemma footers_loop_concat:
  "footers_loop j b st fs = footer_links_loop j b st (concat fs)"
  by (induction fs arbitrary: st) (auto simp: footer_links_loop_append split: sum.splits)

lemma step_unusable: "\<not> usable a \<Longrightarrow> footer_link_step j b st a = Inr st"
  by (auto simp: footer_link_step_def usable_def split: option.splits prod.splits)

lemma step_raises:
  "usable a \<Longrightarrow> absolute_url j b a = Inl x \<Longrightarrow> footer_link_step j b st a = Inl x"
  by (auto simp: footer_link_step_def usable_def absolute_url_def split: option.splits prod.splits)

lemma step_capture:
  "usable a \<Longrightarrow> absolute_url j b a = Inr u \<Longrightarrow> is_license_anchor a \<Longrightarrow>
   footer_link_step j b ([], lt, rl) a = Inr (u, strip (get_text a), rl)"
  by (auto simp: footer_link_step_def usable_def is_license_anchor_def absolute_url_def Let_def
      split: option.splits)

lemma step_other:
  "usable a \<Longrightarrow> absolute_url j b a = Inr u \<Longrightarrow> ll \<noteq> [] \<or> \<not> is_license_anchor a \<Longrightarrow>
   footer_link_step j b (ll, lt, rl) a =
     Inr (ll, lt, if is_relevant_anchor a then List.insert u rl else rl)"
  by (auto simp: footer_link_step_def usable_def is_license_anchor_def is_relevant_anchor_def
      absolute_url_def Let_def split: option.splits)

lemma step_isl:
  "isl (footer_link_step j b st a) \<longleftrightarrow> usable a \<and> isl (absolute_url j b a)"
  by (cases st)
     (auto simp: footer_link_step_def usable_def absolute_url_def Let_def
           split: option.splits sum.splits)

text \<open>The loop raises exactly when \<open>urljoin\<close> raises on some anchor with a non-empty \<open>href\<close>.\<close>

lemma loop_isl:
  "isl (footer_links_loop j b st xs) \<longleftrightarrow> (\<exists>a \<in> set xs. usable a \<and> isl (absolute_url j b a))"
proof (induction xs arbitrary: st)
  case Nil
  show ?case by simp
next
  case (Cons a xs)
  show ?case
  proof (cases "footer_link_step j b st a")
    case (Inl x)
    with step_isl [of j b st a] show ?thesis by simp
  next
    case (Inr st')
    with step_isl [of j b st a] Cons.IH [of st'] show ?thesis by auto
  qed
qed

lemma resolved_url_Inr: "\<not> isl (absolute_url j b a) \<Longrightarrow> absolute_url j b a = Inr (resolved_url j b a)"
  by (cases "absolute_url j b a") (simp_all add: resolved_url_def)

lemma loop_after_capture:
  "ll \<noteq> [] \<Longrightarrow> \<forall>x \<in> set xs. usable x \<longrightarrow> \<not> isl (absolute_url j b x) \<Longrightarrow>
   \<exists>rl'. footer_links_loop j b (ll, lt, rl) xs = Inr (ll, lt, rl')
     \<and> set rl' = set rl \<union> resolved_url j b ` {x \<in> set xs. usable x \<and> is_relevant_anchor x}"
proof (induction xs arbitrary: rl)
  case Nil
  show ?case by simp
next
  case (Cons a xs)
  from Cons.prems have rest: "\<forall>x \<in> set xs. usable x \<longrightarrow> \<not> isl (absolute_url j b x)" by simp
  show ?case
  proof (cases "usable a")
    case False
    then have "{x \<in> set (a # xs). usable x \<and> is_relevant_anchor x}
                = {x \<in> set xs. usable x \<and> is_relevant_anchor x}"
      by auto
    with False Cons.IH [OF Cons.prems(1) rest, of rl] show ?thesis
      by (simp add: step_unusable)
  next
    case True
    with Cons.prems have u: "absolute_url j b a = Inr (resolved_url j b a)"
      by (simp add: resolved_url_Inr)
    let ?rl = "if is_relevant_anchor a then List.insert (resolved_url j b a) rl else rl"
    from Cons.IH [OF Cons.prems(1) rest, of ?rl] obtain rl' where
      "footer_links_loop j b (ll, lt, ?rl) xs = Inr (ll, lt, rl')"
      "set rl' = set ?rl \<union> resolved_url j b ` {x \<in> set xs. usable x \<and> is_relevant_anchor x}"
      by blast
    with True u Cons.prems(1) show ?thesis
      by (auto simp: step_other)
  qed
qed

lemma loop_before_capture:
  "\<forall>x \<in> set xs. usable x \<longrightarrow> \<not> is_license_anchor x \<Longrightarrow>
   \<forall>x \<in> set xs. usable x \<longrightarrow> \<not> isl (absolute_url j b x) \<Longrightarrow>
   \<exists>rl'. footer_links_loop j b ([], lt, rl) xs = Inr ([], lt, rl')
     \<and> set rl' = set rl \<union> resolved_url j b ` {x \<in> set xs. usable x \<and> is_relevant_anchor x}"
proof (induction xs arbitrary: rl)
  case Nil
  show ?case by simp
next
  case (Cons a xs)
  from Cons.prems have rest: "\<forall>x \<in> set xs. usable x \<longrightarrow> \<not> is_license_anchor x"
    "\<forall>x \<in> set xs. usable x \<longrightarrow> \<not> isl (absolute_url j b x)" by simp_all
  show ?case
  proof (cases "usable a")
    case False
    then have eq: "{x \<in> set (a # xs). usable x \<and> is_relevant_anchor x}
                = {x \<in> set xs. usable x \<and> is_relevant_anchor x}"
      by auto
    from False eq Cons.IH [OF rest, of rl] show ?thesis
      by (simp add: step_unusable)
  next
    case True
    with Cons.prems have u: "absolute_url j b a = Inr (resolved_url j b a)"
      by (simp add: resolved_url_Inr)
    let ?rl = "if is_relevant_anchor a then List.insert (resolved_url j b a) rl else rl"
    from Cons.IH [OF rest, of ?rl] obtain rl' where
      "footer_links_loop j b ([], lt, ?rl) xs = Inr ([], lt, rl')"
      "set rl' = set ?rl \<union> resolved_url j b ` {x \<in> set xs. usable x \<and> is_relevant_anchor x}"
      by blast
    with True u Cons.prems(1) show ?thesis
      by (auto simp: step_other)
  qed
qed

lemma loop_with_capture:
  assumes a: "usable a" "is_license_anchor a" "resolved_url j b a \<noteq> []"
    and pre: "\<forall>x \<in> set pre. usable x \<longrightarrow> \<not> is_license_anchor x"
    and ok: "\<forall>x \<in> set (pre @ a # post). usable x \<longrightarrow> \<not> isl (absolute_url j b x)"
  shows "\<exists>rl'. footer_links_loop j b ([], [], []) (pre @ a # post)
            = Inr (resolved_url j b a, strip (get_text a), rl')
     \<and> set rl' = resolved_url j b ` {x \<in> set pre \<union> set post. usable x \<and> is_relevant_anchor x}"
proof -
  from ok have okpre: "\<forall>x \<in> set pre. usable x \<longrightarrow> \<not> isl (absolute_url j b x)"
    and okpost: "\<forall>x \<in> set post. usable x \<longrightarrow> \<not> isl (absolute_url j b x)"
    and oka: "absolute_url j b a = Inr (resolved_url j b a)"
    using a(1) by (simp_all add: resolved_url_Inr)
  from loop_before_capture [OF pre okpre, of "[]" "[]"] obtain rl1 where
    1: "footer_links_loop j b ([], [], []) pre = Inr ([], [], rl1)"
    and s1: "set rl1 = resolved_url j b ` {x \<in> set pre. usable x \<and> is_relevant_anchor x}"
    by auto
  from loop_after_capture [OF a(3) okpost, of "strip (get_text a)" rl1] obtain rl2 where
    2: "footer_links_loop j b (resolved_url j b a, strip (get_text a), rl1) post
          = Inr (resolved_url j b a, strip (get_text a), rl2)"
    and s2: "set rl2 = set rl1 \<union> resolved_url j b ` {x \<in> set post. usable x \<and> is_relevant_anchor x}"
    by auto
  have "footer_links_loop j b ([], [], []) (pre @ a # post)
          = Inr (resolved_url j b a, strip (get_text a), rl2)"
    using 1 2 a oka by (simp add: footer_links_loop_append step_capture)
  moreover have "set rl2 = resolved_url j b ` {x \<in> set pre \<union> set post. usable x \<and> is_relevant_anchor x}"
    using s1 s2 by auto
  ultimately show ?thesis by blast
qed

text \<open>
  Claim C4, as the code has it. For a parsed document and a non-empty base URL,
  \<open>urljoin\<close> is applied to every anchor of every footer that has a non-empty \<open>href\<close>;
  extraction raises exactly when \<open>urljoin\<close> raises on one of them. When it returns:
  among those anchors in document order, the first one whose stripped text matches one
  of the five license patterns is captured (provided its resolved URL is not empty):
  licenseLink is its resolved URL and licenseText its stripped text, and no later anchor
  changes them. The relevantLinks are the resolved URLs of the anchors with a non-empty
  \<open>href\<close> before and after the captured one whose text contains a relevant-link keyword;
  the visit that captures the license anchor adds nothing. With no matching anchor,
  licenseLink and licenseText stay empty and every keyword anchor with a non-empty
  \<open>href\<close> is in relevantLinks.
\<close>

theorem footer_first_match:
  assumes base: "base \<noteq> []"
  shows "(isl (extract_footer_links j (Some s) base)
            \<longleftrightarrow> (\<exists>a \<in> set (concat (footers s)). usable a \<and> isl (absolute_url j base a)))
    \<and> (\<forall>ll lt rl. extract_footer_links j (Some s) base = Inr (ll, lt, rl) \<longrightarrow>
          (\<forall>pre a post.
              concat (footers s) = pre @ a # post \<and> usable a \<and> is_license_anchor a
              \<and> resolved_url j base a \<noteq> []
              \<and> (\<forall>x \<in> set pre. usable x \<longrightarrow> \<not> is_license_anchor x)
              \<longrightarrow> ll = resolved_url j base a \<and> lt = strip (get_text a)
                  \<and> set rl = resolved_url j base `
                       {x \<in> set pre \<union> set post. usable x \<and> is_relevant_anchor x})
          \<and> ((\<forall>x \<in> set (concat (footers s)). usable x \<longrightarrow> \<not> is_license_anchor x)
               \<longrightarrow> ll = [] \<and> lt = []
                   \<and> set rl = resolved_url j base `
                        {x \<in> set (concat (footers s)). usable x \<and> is_relevant_anchor x}))"
proof (intro conjI allI impI)
  show "isl (extract_footer_links j (Some s) base)
            \<longleftrightarrow> (\<exists>a \<in> set (concat (footers s)). usable a \<and> isl (absolute_url j base a))"
    using base loop_isl [of j base "([], [], [])" "concat (footers s)"]
    by (simp add: extract_footer_links_def footers_loop_concat del: set_concat)
next
  fix ll lt rl pre a post
  assume res: "extract_footer_links j (Some s) base = Inr (ll, lt, rl)"
  assume h: "concat (footers s) = pre @ a # post \<and> usable a \<and> is_license_anchor a
            \<and> resolved_url j base a \<noteq> []
            \<and> (\<forall>x \<in> set pre. usable x \<longrightarrow> \<not> is_license_anchor x)"
  have loop: "footer_links_loop j base ([], [], []) (concat (footers s)) = Inr (ll, lt, rl)"
    using base res by (simp add: extract_footer_links_def footers_loop_concat)
  then have "\<not> isl (footer_links_loop j base ([], [], []) (concat (footers s)))" by simp
  then have ok: "\<forall>x \<in> set (pre @ a # post). usable x \<longrightarrow> \<not> isl (absolute_url j base x)"
    using h by (simp only: loop_isl) metis
  from h ok obtain rl' where
    "footer_links_loop j base ([], [], []) (pre @ a # post)
          = Inr (resolved_url j base a, strip (get_text a), rl')"
    "set rl' = resolved_url j base ` {x \<in> set pre \<union> set post. usable x \<and> is_relevant_anchor x}"
    using loop_with_capture [of a j base pre post] by blast
  with loop h show "ll = resolved_url j base a" "lt = strip (get_text a)"
      "set rl = resolved_url j base ` {x \<in> set pre \<union> set post. usable x \<and> is_relevant_anchor x}"
    by auto
next
  fix ll lt rl
  assume res: "extract_footer_links j (Some s) base = Inr (ll, lt, rl)"
  assume h: "\<forall>x \<in> set (concat (footers s)). usable x \<longrightarrow> \<not> is_license_anchor x"
  have loop: "footer_links_loop j base ([], [], []) (concat (footers s)) = Inr (ll, lt, rl)"
    using base res by (simp add: extract_footer_links_def footers_loop_concat)
  then have "\<not> isl (footer_links_loop j base ([], [], []) (concat (footers s)))" by simp
  then have ok: "\<forall>x \<in> set (concat (footers s)). usable x \<longrightarrow> \<not> isl (absolute_url j base x)"
    by (simp only: loop_isl) metis
  from loop_before_capture [OF h ok, of "[]" "[]"] loop
  show "ll = []" "lt = []"
      "set rl = resolved_url j base ` {x \<in> set (concat (footers s)). usable x \<and> is_relevant_anchor x}"
    by auto
qed

text \<open>
  The footers of \<open>mit_soup\<close>: an anchor without \<open>href\<close>, then the MIT anchor, which is
  captured; of the anchors after it only the legal notice has a keyword. In
  \<open>bracket_soup\<close> the first anchor has an \<open>href\<close> on which \<open>urljoin\<close> raises.
\<close>

theorem footer_first_match_witness:
  "concat (footers mit_soup)
     = [Anchor None ''Apache License 2.0''] @ mit_anchor
         # [use_anchor, Anchor (Some ''/gpl'') ''GNU GPL'', Anchor (Some ''/legal'') ''Legal notice'']
   \<and> usable mit_anchor \<and> is_license_anchor mit_anchor
   \<and> \<not> usable (Anchor None ''Apache License 2.0'')
   \<and> extract_footer_links example_urljoin (Some mit_soup) ''https://x.org/mit''
       = Inr (''https://x.org/license'', ''MIT License'', [''https://x.org/legal''])
   \<and> resolved_url example_urljoin ''https://x.org/mit'' mit_anchor = ''https://x.org/license''
   \<and> strip (get_text mit_anchor) = ''MIT License''
   \<and> {''https://x.org/legal''}
       = resolved_url example_urljoin ''https://x.org/mit'' `
           {x \<in> set [Anchor None ''Apache License 2.0'']
                 \<union> set [use_anchor, Anchor (Some ''/gpl'') ''GNU GPL'',
                        Anchor (Some ''/legal'') ''Legal notice''].
              usable x \<and> is_relevant_anchor x}
   \<and> absolute_url example_urljoin ''https://x.org/bracket'' (Anchor (Some ''http://[bad'') ''Contact'')
       = Inl (ValueError ''Invalid IPv6 URL'')
   \<and> isl (extract_footer_links example_urljoin (Some bracket_soup) ''https://x.org/bracket'')"
proof -
  let ?pre = "[Anchor None ''Apache License 2.0'']"
  let ?post = "[use_anchor, Anchor (Some ''/gpl'') ''GNU GPL'', Anchor (Some ''/legal'') ''Legal notice'']"
  have b: "''https://x.org/mit'' \<noteq> []" by simp
  have b': "''https://x.org/bracket'' \<noteq> []" by simp
  have r: "extract_footer_links example_urljoin (Some mit_soup) ''https://x.org/mit''
       = Inr (''https://x.org/license'', ''MIT License'', [''https://x.org/legal''])"
    by code_simp
  have h1: "concat (footers mit_soup) = ?pre @ mit_anchor # ?post"
    by code_simp
  have h2: "usable mit_anchor" by code_simp
  have h3: "is_license_anchor mit_anchor" by code_simp
  have h4: "resolved_url example_urljoin ''https://x.org/mit'' mit_anchor \<noteq> []" by code_simp
  have h5: "\<forall>x \<in> set ?pre. usable x \<longrightarrow> \<not> is_license_anchor x" by code_simp
  have u: "resolved_url example_urljoin ''https://x.org/mit'' mit_anchor = ''https://x.org/license''"
    by code_simp
  have t: "strip (get_text mit_anchor) = ''MIT License''" by code_simp
  have n: "\<not> usable (Anchor None ''Apache License 2.0'')" by code_simp
  have v: "absolute_url example_urljoin ''https://x.org/bracket'' (Anchor (Some ''http://[bad'') ''Contact'')
       = Inl (ValueError ''Invalid IPv6 URL'')" by code_simp
  have w: "\<exists>a \<in> set (concat (footers bracket_soup)).
             usable a \<and> isl (absolute_url example_urljoin ''https://x.org/bracket'' a)"
    by code_simp
  from footer_first_match [OF b, of example_urljoin mit_soup] r h1 h2 h3 h4 h5
  have 1: "set [''https://x.org/legal'']
       = resolved_url example_urljoin ''https://x.org/mit'' `
           {x \<in> set ?pre \<union> set ?post. usable x \<and> is_relevant_anchor x}"
    by blast
  from footer_first_match [OF b', of example_urljoin bracket_soup] w
  have 2: "isl (extract_footer_links example_urljoin (Some bracket_soup) ''https://x.org/bracket'')"
    by blast
  from 1 2 r h1 h2 h3 u t n v show ?thesis by simp
qed

text \<open>
  Claim C4 as stated fails on \<open>mit_soup\<close>: the text of the captured anchor contains the
  keyword \<open>license\<close>, yet its URL is not among the relevantLinks; and the first anchor
  whose text matches a license pattern has no \<open>href\<close> and is passed over. On
  \<open>bracket_soup\<close> nothing is captured although the second anchor matches: \<open>urljoin\<close>
  raises on the first.
\<close>

theorem footer_first_match_counterexample:
  "extract_footer_links example_urljoin (Some mit_soup) ''https://x.org/mit''
     = Inr (''https://x.org/license'', ''MIT License'', [''https://x.org/legal''])
   \<and> concat (footers mit_soup) ! 1 = mit_anchor
   \<and> absolute_url example_urljoin ''https://x.org/mit'' mit_anchor = Inr ''https://x.org/license''
   \<and> is_relevant_anchor mit_anchor
   \<and> is_license_anchor (concat (footers mit_soup) ! 0)
   \<and> is_license_anchor (concat (footers bracket_soup) ! 1)
   \<and> extract_footer_links example_urljoin (Some bracket_soup) ''https://x.org/bracket''
     = Inl (ValueError ''Invalid IPv6 URL'')"
  by code_simp

section \<open>The relevant-link keywords\<close>

lemma lower_keywords:
  "map lower [''terms'', ''legal'', ''license'', ''licensinguse'', ''policy'', ''copyright'']
     = [''terms'', ''legal'', ''license'', ''licensinguse'', ''policy'', ''copyright'']"
  by (simp add: lower_def lower_char_def upper_letters_def lower_letters_def)

lemma relevant_anchor_iff:
  "is_relevant_anchor link \<longleftrightarrow>
     (\<exists>k \<in> set [''terms'', ''legal'', ''license'', ''licensinguse'', ''policy'', ''copyright''].
        py_in k (lower (strip (get_text link))))"
proof -
  have "py_in k [] \<Longrightarrow> k = []" for k by simp
  then show ?thesis
  using lower_keywords
  by (auto simp: is_relevant_anchor_def contains_keyword_def RELEVANT_LINKS_KEYWORDS_def lower_def)
qed

lemma step_relevant_subset:
  assumes "footer_link_step j b st a = Inr st'"
  shows "set (snd (snd st'))
     \<subseteq> set (snd (snd st)) \<union> resolved_url j b ` {x \<in> {a}. usable x \<and> is_relevant_anchor x}"
proof (cases "usable a")
  case False
  with assms show ?thesis by (simp add: step_unusable)
next
  case True
  obtain ll lt rl where st: "st = (ll, lt, rl)" by (cases st)
  show ?thesis
  proof (cases "absolute_url j b a")
    case (Inl x)
    with True assms show ?thesis by (simp add: step_raises)
  next
    case (Inr u)
    then have u: "resolved_url j b a = u" by (simp add: resolved_url_def)
    show ?thesis
    proof (cases "ll = [] \<and> is_license_anchor a")
      case True
      with \<open>usable a\<close> Inr assms st show ?thesis by (auto simp: step_capture)
    next
      case False
      then have "ll \<noteq> [] \<or> \<not> is_license_anchor a" by simp
      from step_other [OF \<open>usable a\<close> Inr this, of lt rl] assms st u \<open>usable a\<close>
      show ?thesis by (auto split: if_splits)
    qed
  qed
qed

lemma loop_relevant_subset:
  "footer_links_loop j b st xs = Inr st' \<Longrightarrow>
   set (snd (snd st'))
     \<subseteq> set (snd (snd st)) \<union> resolved_url j b ` {x \<in> set xs. usable x \<and> is_relevant_anchor x}"
proof (induction xs arbitrary: st)
  case Nil
  then show ?case by simp
next
  case (Cons a xs)
  from Cons.prems obtain st1 where 1: "footer_link_step j b st a = Inr st1"
    and 2: "footer_links_loop j b st1 xs = Inr st'"
    by (auto split: sum.splits)
  from Cons.IH [OF 2] step_relevant_subset [OF 1]
  show ?case by auto
qed

lemma extract_relevant_subset:
  "extract_footer_links j (Some s) base = Inr res \<Longrightarrow>
   set (snd (snd res))
     \<subseteq> resolved_url j base ` {x \<in> set (concat (footers s)). usable x \<and> is_relevant_anchor x}"
proof (cases "base = []")
  case True
  assume "extract_footer_links j (Some s) base = Inr res"
  with True show ?thesis by (auto simp: extract_footer_links_def)
next
  case False
  assume "extract_footer_links j (Some s) base = Inr res"
  with False have "footer_links_loop j base ([], [], []) (concat (footers s)) = Inr res"
    by (simp add: extract_footer_links_def footers_loop_concat)
  from loop_relevant_subset [OF this] show ?thesis by (simp del: set_concat)
qed

lemma extract_no_raise:
  "extract_footer_links j (Some s) base = Inr res \<Longrightarrow> base \<noteq> [] \<Longrightarrow>
   a \<in> set (concat (footers s)) \<Longrightarrow> usable a \<Longrightarrow>
   absolute_url j base a = Inr (resolved_url j base a)"
proof -
  assume r: "extract_footer_links j (Some s) base = Inr res" and b: "base \<noteq> []"
    and a: "a \<in> set (concat (footers s))" "usable a"
  from r b have "\<not> isl (footer_links_loop j base ([], [], []) (concat (footers s)))"
    by (simp add: extract_footer_links_def footers_loop_concat)
  with a have "\<not> isl (absolute_url j base a)"
    by (simp only: loop_isl) metis
  then show ?thesis by (rule resolved_url_Inr)
qed

text \<open>
  Claim C10. The keyword list holds the fused token \<open>licensinguse\<close> and neither
  \<open>licensing\<close> nor \<open>use\<close>. An anchor whose lowercased, stripped text contains none of
  \<open>terms\<close>, \<open>legal\<close>, \<open>license\<close>, \<open>licensinguse\<close>, \<open>policy\<close>, \<open>copyright\<close> (whether or
  not it contains \<open>use\<close> or \<open>licensing\<close>) is not added to relevantLinks by its visit,
  and its URL is not in the relevantLinks of the document unless another anchor resolves
  to the same URL. (When \<open>urljoin\<close> raises there are no relevantLinks at all.)
\<close>

theorem fused_keyword:
  "RELEVANT_LINKS_KEYWORDS
      = [''terms'', ''legal'', ''license'', ''licensinguse'', ''policy'', ''copyright'']
   \<and> ''licensing'' \<notin> set RELEVANT_LINKS_KEYWORDS
   \<and> ''use'' \<notin> set RELEVANT_LINKS_KEYWORDS
   \<and> ((\<forall>k \<in> set [''terms'', ''legal'', ''license'', ''licensinguse'', ''policy'', ''copyright''].
          \<not> py_in k (lower (strip (get_text link))))
        \<longrightarrow> (\<forall>st'. footer_link_step j base (ll, lt, rl) link = Inr st' \<longrightarrow> snd (snd st') = rl)
           \<and> ((\<forall>other \<in> set (concat (footers s)).
                   absolute_url j base other = absolute_url j base link
                   \<longrightarrow> other = link \<or> \<not> usable other)
               \<longrightarrow> (\<forall>res u. extract_footer_links j (Some s) base = Inr res
                              \<and> absolute_url j base link = Inr u
                            \<longrightarrow> u \<notin> set (snd (snd res)))))"
proof -
  have kw: "RELEVANT_LINKS_KEYWORDS
      = [''terms'', ''legal'', ''license'', ''licensinguse'', ''policy'', ''copyright'']"
    by (simp add: RELEVANT_LINKS_KEYWORDS_def)
  have single: "''licensing'' \<notin> set RELEVANT_LINKS_KEYWORDS" "''use'' \<notin> set RELEVANT_LINKS_KEYWORDS"
    by (simp_all add: kw)
  have step: "snd (snd st') = rl"
    if "\<not> is_relevant_anchor link" "footer_link_step j base (ll, lt, rl) link = Inr st'" for st'
    using that
    by (auto simp: footer_link_step_def is_relevant_anchor_def Let_def
        split: option.splits sum.splits if_splits)
  have whole: "u \<notin> set (snd (snd res))"
    if no: "\<not> is_relevant_anchor link"
      and alone: "\<forall>other \<in> set (concat (footers s)).
                   absolute_url j base other = absolute_url j base link
                   \<longrightarrow> other = link \<or> \<not> usable other"
      and r: "extract_footer_links j (Some s) base = Inr res"
      and u: "absolute_url j base link = Inr u" for res u
  proof
    assume m: "u \<in> set (snd (snd res))"
    have b: "base \<noteq> []"
      using m r by (auto simp: extract_footer_links_def)
    from m extract_relevant_subset [OF r]
    have "u \<in> resolved_url j base `
            {x \<in> set (concat (footers s)). usable x \<and> is_relevant_anchor x}"
      by blast
    then obtain other where o: "other \<in> set (concat (footers s))" "usable other"
      "is_relevant_anchor other" "resolved_url j base other = u"
      by (auto simp del: set_concat)
    from extract_no_raise [OF r b o(1) o(2)] o(4) u
    have "absolute_url j base other = absolute_url j base link" by simp
    with alone o no show False by (auto simp del: set_concat)
  qed
  have nr: "\<not> is_relevant_anchor link"
    if "\<forall>k \<in> set [''terms'', ''legal'', ''license'', ''licensinguse'', ''policy'', ''copyright''].
          \<not> py_in k (lower (strip (get_text link)))"
    using that by (simp only: relevant_anchor_iff) blast
  show ?thesis
  proof (intro conjI impI)
    show "RELEVANT_LINKS_KEYWORDS
      = [''terms'', ''legal'', ''license'', ''licensinguse'', ''policy'', ''copyright'']"
      by (rule kw)
    show "''licensing'' \<notin> set RELEVANT_LINKS_KEYWORDS" "''use'' \<notin> set RELEVANT_LINKS_KEYWORDS"
      by (rule single)+
  next
    assume h: "\<forall>k \<in> set [''terms'', ''legal'', ''license'', ''licensinguse'', ''policy'', ''copyright''].
          \<not> py_in k (lower (strip (get_text link)))"
    show "\<forall>st'. footer_link_step j base (ll, lt, rl) link = Inr st' \<longrightarrow> snd (snd st') = rl"
      using step [OF nr [OF h] ] by blast
  next
    assume h: "\<forall>k \<in> set [''terms'', ''legal'', ''license'', ''licensinguse'', ''policy'', ''copyright''].
          \<not> py_in k (lower (strip (get_text link)))"
      and alone: "\<forall>other \<in> set (concat (footers s)).
                   absolute_url j base other = absolute_url j base link
                   \<longrightarrow> other = link \<or> \<not> usable other"
    show "\<forall>res u. extract_footer_links j (Some s) base = Inr res
                              \<and> absolute_url j base link = Inr u
                            \<longrightarrow> u \<notin> set (snd (snd res))"
      using whole [OF nr [OF h] alone] by blast
  qed
qed

text \<open>The anchor \<open>Conditions of Use\<close> of \<open>mit_soup\<close> contains \<open>use\<close> and no keyword.\<close>

theorem fused_keyword_witness:
  "py_in ''use'' (lower (strip (get_text use_anchor)))
   \<and> \<not> is_relevant_anchor use_anchor
   \<and> concat (footers mit_soup) ! 2 = use_anchor
   \<and> absolute_url example_urljoin ''https://x.org/mit'' use_anchor = Inr ''https://x.org/use''
   \<and> footer_link_step example_urljoin ''https://x.org/mit'' ([], [], []) use_anchor
       = Inr ([], [], [])
   \<and> extract_footer_links example_urljoin (Some mit_soup) ''https://x.org/mit''
       = Inr (''https://x.org/license'', ''MIT License'', [''https://x.org/legal''])
   \<and> ''https://x.org/use''
        \<notin> set (snd (snd (''https://x.org/license'', ''MIT License'', [''https://x.org/legal''])))"
proof -
  have h0: "py_in ''use'' (lower (strip (get_text use_anchor)))"
    by code_simp
  have h1: "\<forall>k \<in> set [''terms'', ''legal'', ''license'', ''licensinguse'', ''policy'', ''copyright''].
          \<not> py_in k (lower (strip (get_text use_anchor)))"
    by code_simp
  have h2: "\<forall>other \<in> set (concat (footers mit_soup)).
          absolute_url example_urljoin ''https://x.org/mit'' other
            = absolute_url example_urljoin ''https://x.org/mit'' use_anchor
          \<longrightarrow> other = use_anchor \<or> \<not> usable other"
    by code_simp
  have h3: "\<not> is_relevant_anchor use_anchor" by code_simp
  have h4: "concat (footers mit_soup) ! 2 = use_anchor" by code_simp
  have u: "absolute_url example_urljoin ''https://x.org/mit'' use_anchor = Inr ''https://x.org/use''"
    by code_simp
  have st: "footer_link_step example_urljoin ''https://x.org/mit'' ([], [], []) use_anchor
       = Inr ([], [], [])"
    by code_simp
  have r: "extract_footer_links example_urljoin (Some mit_soup) ''https://x.org/mit''
       = Inr (''https://x.org/license'', ''MIT License'', [''https://x.org/legal''])"
    by code_simp
  from fused_keyword [of use_anchor example_urljoin "''https://x.org/mit''" "[]" "[]" "[]" mit_soup]
    h1 h2 u r
  have "''https://x.org/use''
        \<notin> set (snd (snd (''https://x.org/license'', ''MIT License'', [''https://x.org/legal''])))"
    by blast
  with h0 h3 h4 u st r show ?thesis by simp
qed

end
